theory Spec2Isabelle
  imports Main "HOL-Library.Sublist"
begin

section \<open>Strings, numbers and parse outcomes of the SI parser\<close>

text \<open>
  The development embeds \<^verbatim>\<open>src/SIParser.ts\<close>. A JavaScript string is a sequence of
  UTF-16 code units and \<^verbatim>\<open>length\<close> counts code units, so a string is a list of
  code units here. All literals of the source are ASCII apart from the three
  one-unit letters \<^verbatim>\<open>U+03BC\<close> (micro), \<^verbatim>\<open>U+03A9\<close> (ohm) and \<^verbatim>\<open>U+00B0\<close> (degree).
  The functions of the source whose names start with an underscore carry the same
  name without it (\<^verbatim>\<open>_parseTerm\<close> is \<open>parseTerm\<close>); \<^verbatim>\<open>_normalizeUnits\<close> is
  \<open>normalizeUnits_inner\<close>, the exported \<^verbatim>\<open>normalizeUnits\<close> keeps its name. The table
  \<^verbatim>\<open>prefixes\<close> of \<^verbatim>\<open>_parseBase\<close> is \<open>prefixesTable\<close>, since the list library has
  a function of that name.
\<close>

type_synonym jsstring = "nat list"

definition str :: "string \<Rightarrow> jsstring" where
  "str cs = map of_char cs"

definition micro :: jsstring where
  "micro = [956]"

definition ohm :: jsstring where
  "ohm = [937]"

definition degreeC :: jsstring where
  "degreeC = [176, 67]"

text \<open>
  \<^verbatim>\<open>string.indexOf(x) === 0\<close>, \<^verbatim>\<open>string.charAt(0)\<close> and
  \<^verbatim>\<open>string.split(' ').join('')\<close>.
\<close>

definition startsWith :: "jsstring \<Rightarrow> jsstring \<Rightarrow> bool" where
  "startsWith string x = prefix x string"

definition charAt0 :: "jsstring \<Rightarrow> jsstring" where
  "charAt0 string = take 1 string"

definition stripSpaces :: "jsstring \<Rightarrow> jsstring" where
  "stripSpaces string = filter (\<lambda>c. c \<noteq> 32) string"

text \<open>
  A JavaScript number is an IEEE double. The grammar only ever reads digit runs,
  negates, adds, subtracts and multiplies, so the model is exact on the doubles that
  are integers of magnitude at most \<open>2^53\<close> (where double arithmetic is integer
  arithmetic, and \<open>-0\<close> prints and compares as \<open>0\<close>) and on \<open>NaN\<close>. Every other
  double is the single value \<open>Inexact\<close>, which stands for a number this development
  does not determine: an operation with an undetermined argument or with a result
  beyond \<open>2^53\<close> is \<open>Inexact\<close> again, unless an argument is \<open>NaN\<close>.
\<close>

datatype jsnum = Exact int | NaN | Inexact

definition exact :: "int \<Rightarrow> jsnum" where
  "exact z = (if \<bar>z\<bar> \<le> 9007199254740992 then Exact z else Inexact)"

fun jsNeg :: "jsnum \<Rightarrow> jsnum" where
  "jsNeg (Exact a) = Exact (- a)"
| "jsNeg NaN = NaN"
| "jsNeg Inexact = Inexact"

fun jsAdd :: "jsnum \<Rightarrow> jsnum \<Rightarrow> jsnum" where
  "jsAdd NaN b = NaN"
| "jsAdd a NaN = NaN"
| "jsAdd (Exact a) (Exact b) = exact (a + b)"
| "jsAdd a b = Inexact"

fun jsSub :: "jsnum \<Rightarrow> jsnum \<Rightarrow> jsnum" where
  "jsSub NaN b = NaN"
| "jsSub a NaN = NaN"
| "jsSub (Exact a) (Exact b) = exact (a - b)"
| "jsSub a b = Inexact"

fun jsMul :: "jsnum \<Rightarrow> jsnum \<Rightarrow> jsnum" where
  "jsMul NaN b = NaN"
| "jsMul a NaN = NaN"
| "jsMul (Exact a) (Exact b) = exact (a * b)"
| "jsMul a b = Inexact"

text \<open>
  \<^verbatim>\<open>x || 0\<close> for a property read \<^verbatim>\<open>x\<close>: \<open>None\<close> is \<^verbatim>\<open>undefined\<close>. The falsy
  numbers are \<open>0\<close> and \<open>NaN\<close>.
\<close>

fun orZero :: "jsnum option \<Rightarrow> jsnum" where
  "orZero None = Exact 0"
| "orZero (Some (Exact a)) = Exact a"
| "orZero (Some NaN) = Exact 0"
| "orZero (Some Inexact) = Inexact"

text \<open>
  \<^verbatim>\<open>x += y\<close> on a property: \<^verbatim>\<open>undefined + y\<close> is \<open>NaN\<close>.
\<close>

fun plusAssign :: "jsnum option \<Rightarrow> jsnum \<Rightarrow> jsnum" where
  "plusAssign None y = NaN"
| "plusAssign (Some x) y = jsAdd x y"

text \<open>
  \<^verbatim>\<open>parseInt\<close> and \<^verbatim>\<open>parseFloat\<close>. The source applies \<^verbatim>\<open>parseInt\<close> to a non-empty run
  of ASCII digits and \<^verbatim>\<open>parseFloat\<close> to digits, a period and digits (either run may
  be empty); on anything else the model leaves the number undetermined.
\<close>

definition isDigit :: "nat \<Rightarrow> bool" where
  "isDigit c = (48 \<le> c \<and> c \<le> 57)"

definition digitsValue :: "jsstring \<Rightarrow> nat" where
  "digitsValue ds = foldl (\<lambda>a d. 10 * a + (d - 48)) 0 ds"

definition parseInt :: "jsstring \<Rightarrow> jsnum" where
  "parseInt s =
     (if s \<noteq> [] \<and> list_all isDigit s then exact (int (digitsValue s)) else Inexact)"

definition parseFloat :: "jsstring \<Rightarrow> jsnum" where
  "parseFloat s =
     (let ip = takeWhile isDigit s; r = dropWhile isDigit s
      in if take 1 r = str ''.'' \<and> list_all isDigit (drop 1 r)
         then (if ip = [] \<and> drop 1 r = [] then NaN
               else if list_all (\<lambda>d. d = 48) (drop 1 r) then exact (int (digitsValue ip))
               else Inexact)
         else Inexact)"

text \<open>
  Number to string: \<^verbatim>\<open>'' + x\<close> and \<^verbatim>\<open>JSON.stringify(x)\<close>. An integer below
  \<open>10^21\<close> prints as its decimal digits; \<open>NaN\<close> prints as \<^verbatim>\<open>NaN\<close> and serialises
  as \<^verbatim>\<open>null\<close>; \<^verbatim>\<open>undefined\<close> prints as \<^verbatim>\<open>undefined\<close>. The result is \<open>None\<close> where
  the number is not determined.
\<close>

fun digitsOf :: "nat \<Rightarrow> jsstring" where
  "digitsOf n = (if n < 10 then [48 + n] else digitsOf (n div 10) @ [48 + n mod 10])"

definition intToString :: "int \<Rightarrow> jsstring" where
  "intToString i = (if i < 0 then str ''-'' @ digitsOf (nat (- i)) else digitsOf (nat i))"

fun numToString :: "jsnum option \<Rightarrow> jsstring option" where
  "numToString None = Some (str ''undefined'')"
| "numToString (Some (Exact a)) = Some (intToString a)"
| "numToString (Some NaN) = Some (str ''NaN'')"
| "numToString (Some Inexact) = None"

fun JSON_stringify :: "jsnum \<Rightarrow> jsstring option" where
  "JSON_stringify (Exact a) = Some (intToString a)"
| "JSON_stringify NaN = Some (str ''null'')"
| "JSON_stringify Inexact = None"

text \<open>\<^verbatim>\<open>x !== k\<close> for a property read \<^verbatim>\<open>x\<close> and an integer literal \<^verbatim>\<open>k\<close>.\<close>

fun strictNeq :: "jsnum option \<Rightarrow> int \<Rightarrow> bool option" where
  "strictNeq None k = Some True"
| "strictNeq (Some (Exact a)) k = Some (a \<noteq> k)"
| "strictNeq (Some NaN) k = Some True"
| "strictNeq (Some Inexact) k = None"

text \<open>
  Every grammar rule returns an object \<^verbatim>\<open>{consumed, rest, success, result}\<close>, the
  \<^verbatim>\<open>result\<close> present when \<^verbatim>\<open>success\<close> is true.
\<close>

datatype 'a outcome =
    Failure (consumed: jsstring) (rest: jsstring)
  | Success (consumed: jsstring) (rest: jsstring) (result: 'a)

fun success :: "'a outcome \<Rightarrow> bool" where
  "success (Failure c r) = False"
| "success (Success c r x) = True"


section \<open>Lexical primitives\<close>

definition parseChar :: "jsstring \<Rightarrow> jsstring \<Rightarrow> unit outcome" where
  "parseChar string char =
     (if char = charAt0 string then Success char (drop 1 string) ()
      else Failure [] string)"

definition parseDigits :: "jsstring \<Rightarrow> jsnum outcome" where
  "parseDigits string =
     (let i = length (takeWhile isDigit string)
      in if i \<noteq> 0
         then (let consumed = take i string
               in Success consumed (drop i string) (parseInt consumed))
         else Failure [] string)"

definition parseDotDigits :: "jsstring \<Rightarrow> jsnum outcome" where
  "parseDotDigits string =
     (case parseChar string (str ''.'') of
        Success periodConsumed periodRest u \<Rightarrow>
          (let digitsAfterPeriodResult = parseDigits periodRest;
               consumedAfterPeriod = periodConsumed @ consumed digitsAfterPeriodResult
           in Success consumedAfterPeriod (drop (length consumedAfterPeriod) string)
                (parseFloat consumedAfterPeriod))
      | Failure periodConsumed periodRest \<Rightarrow> Failure periodConsumed string)"

lemma parseChar_rest:
  "parseChar string char = Success pc pr u \<Longrightarrow>
     pr = drop 1 string \<and> (char \<noteq> [] \<longrightarrow> length pr < length string)"
  by (cases string) (auto simp: parseChar_def charAt0_def split: if_splits)

lemma parseChar_rest_shorter:
  "parseChar string (str [c]) = Success pc pr u \<Longrightarrow> length pr < length string"
  by (cases string) (auto simp: parseChar_def charAt0_def str_def split: if_splits)

function parseInteger :: "jsstring \<Rightarrow> jsnum outcome" where
  "parseInteger string =
     (case parseChar string (str ''+'') of
        Success plusConsumed plusRest u \<Rightarrow>
          (case parseInteger plusRest of
             Success c r x \<Rightarrow> Success (plusConsumed @ c) r x
           | Failure c r \<Rightarrow> Failure (plusConsumed @ c) string)
      | Failure plusConsumed plusRest \<Rightarrow>
          (case parseChar string (str ''-'') of
             Success minusConsumed minusRest u \<Rightarrow>
               (case parseInteger minusRest of
                  Success c r x \<Rightarrow> Success (minusConsumed @ c) r (jsNeg x)
                | Failure c r \<Rightarrow> Failure (minusConsumed @ c) string)
           | Failure minusConsumed minusRest \<Rightarrow>
               (case parseDigits string of
                  Success c r x \<Rightarrow> Success c r x
                | Failure c r \<Rightarrow> Failure c string)))"
  by pat_completeness auto
termination
  by (relation "measure length") (auto dest: parseChar_rest_shorter)

declare parseInteger.simps [simp del]

definition parseExponent :: "jsstring \<Rightarrow> jsnum outcome" where
  "parseExponent string = parseInteger string"

function parseDecimal :: "jsstring \<Rightarrow> jsnum outcome" where
  "parseDecimal string =
     (case parseChar string (str ''+'') of
        Success plusConsumed plusRest u \<Rightarrow>
          (case parseDecimal plusRest of
             Success c r x \<Rightarrow> Success (plusConsumed @ c) r x
           | Failure c r \<Rightarrow> Failure (plusConsumed @ c) string)
      | Failure plusConsumed plusRest \<Rightarrow>
          (case parseChar string (str ''-'') of
             Success minusConsumed minusRest u \<Rightarrow>
               (case parseDecimal minusRest of
                  Success c r x \<Rightarrow> Success (minusConsumed @ c) r (jsNeg x)
                | Failure c r \<Rightarrow> Failure (minusConsumed @ c) string)
           | Failure minusConsumed minusRest \<Rightarrow>
               (let digitsResult = parseDigits string
                in case parseDotDigits (rest digitsResult) of
                     Success dotConsumed dotRest x \<Rightarrow>
                       (let consumedAroundPeriod = consumed digitsResult @ dotConsumed
                        in Success consumedAroundPeriod dotRest
                             (parseFloat consumedAroundPeriod))
                   | Failure dotConsumed dotRest \<Rightarrow> digitsResult)))"
  by pat_completeness auto
termination
  by (relation "measure length") (auto dest: parseChar_rest_shorter)

declare parseDecimal.simps [simp del]

definition parseSignificand :: "jsstring \<Rightarrow> jsnum outcome" where
  "parseSignificand string = parseDecimal string"


section \<open>The unit and prefix tables and the base matcher\<close>

text \<open>
  An exponent vector is a JavaScript object from unit keys to numbers. The source
  updates the object of a callee in place and returns it; no object is read again
  after it was merged into another, so the model passes vectors by value.
  \<^verbatim>\<open>Object.keys(t).forEach\<close> with an update of one key per step is the pointwise
  definition.
\<close>

type_synonym expvec = "jsstring \<rightharpoonup> jsnum"

record unit_result =
  exponents :: expvec
  conversion :: "jsnum \<Rightarrow> jsnum"

definition prefixesTable :: "(jsstring \<times> int) list" where
  "prefixesTable =
     [(str ''Y'', 24), (str ''Z'', 21), (str ''E'', 18), (str ''P'', 15), (str ''T'', 12),
      (str ''G'', 9), (str ''M'', 6), (str ''k'', 3), (str ''h'', 2), (str ''da'', 1),
      ([], 0), (str ''d'', - 1), (str ''c'', - 2), (str ''m'', - 3), (micro, - 6),
      (str ''n'', - 9), (str ''p'', - 12), (str ''f'', - 15), (str ''a'', - 18),
      (str ''z'', - 21), (str ''y'', - 24)]"

definition baseUnits :: "jsstring list" where
  "baseUnits = [str ''m'', str ''g'', str ''s'', str ''A'', str ''K'', str ''mol'', str ''cd'']"

text \<open>The conversion of the degree Celsius: \<^verbatim>\<open>magnitude + 273.15\<close>, never an exact integer.\<close>

definition celsiusConversion :: "jsnum \<Rightarrow> jsnum" where
  "celsiusConversion magnitude = (case magnitude of NaN \<Rightarrow> NaN | _ \<Rightarrow> Inexact)"

definition derivedUnits ::
  "(jsstring \<times> (jsstring \<times> int) list \<times> (jsnum \<Rightarrow> jsnum) option) list" where
  "derivedUnits =
     [(str ''L'', [(str ''10'', - 3), (str ''m'', 3)], None),
      (str ''rad'', [], None),
      (str ''sr'', [], None),
      (str ''Hz'', [(str ''s'', - 1)], None),
      (str ''N'', [(str ''10'', 3), (str ''g'', 1), (str ''m'', 1), (str ''s'', - 2)], None),
      (str ''Pa'', [(str ''10'', 3), (str ''g'', 1), (str ''m'', - 1), (str ''s'', - 2)], None),
      (str ''bar'', [(str ''10'', 8), (str ''g'', 1), (str ''m'', - 1), (str ''s'', - 2)], None),
      (str ''J'', [(str ''10'', 3), (str ''g'', 1), (str ''m'', 2), (str ''s'', - 2)], None),
      (str ''W'', [(str ''10'', 3), (str ''g'', 1), (str ''m'', 2), (str ''s'', - 3)], None),
      (str ''C'', [(str ''s'', 1), (str ''A'', 1)], None),
      (str ''V'', [(str ''10'', 3), (str ''g'', 1), (str ''m'', 2), (str ''s'', - 3),
         (str ''A'', - 1)], None),
      (str ''F'', [(str ''10'', - 3), (str ''g'', - 1), (str ''m'', - 2), (str ''s'', 4),
         (str ''A'', 2)], None),
      (ohm, [(str ''10'', 3), (str ''g'', 1), (str ''m'', 2), (str ''s'', - 3),
         (str ''A'', - 2)], None),
      (str ''S'', [(str ''10'', - 3), (str ''g'', - 1), (str ''m'', - 2), (str ''s'', 3),
         (str ''A'', 2)], None),
      (str ''Wb'', [(str ''10'', 3), (str ''g'', 1), (str ''m'', 2), (str ''s'', - 2),
         (str ''A'', - 1)], None),
      (str ''T'', [(str ''10'', 3), (str ''g'', 1), (str ''s'', - 2), (str ''A'', - 1)], None),
      (str ''H'', [(str ''10'', 3), (str ''g'', 1), (str ''m'', 2), (str ''s'', - 2),
         (str ''A'', - 2)], None),
      (degreeC, [(str ''K'', 1)], Some celsiusConversion),
      (str ''lm'', [(str ''cd'', 1)], None),
      (str ''lx'', [(str ''m'', - 2), (str ''cd'', 1)], None),
      (str ''Bq'', [(str ''s'', - 1)], None),
      (str ''Gy'', [(str ''m'', 2), (str ''s'', - 2)], None),
      (str ''Sv'', [(str ''m'', 2), (str ''s'', - 2)], None),
      (str ''kat'', [(str ''mol'', 1), (str ''s'', - 1)], None)]"

definition perUnits :: "jsstring list" where
  "perUnits = [str ''%'', str ''ppm'', str ''ppb'', str ''ppt'', str ''ppq'']"

definition prefixlessUnits :: "jsstring list" where
  "prefixlessUnits = perUnits @ [degreeC]"

definition units :: "jsstring list" where
  "units = baseUnits @ perUnits @ map fst derivedUnits"

text \<open>
  The local \<^verbatim>\<open>match\<close> of \<^verbatim>\<open>_parseBase\<close>: the prefixed candidates in table order, then
  the unprefixed ones, sorted by descending matched length (\<^verbatim>\<open>sort\<close> is stable).
\<close>

definition matchList :: "jsstring \<Rightarrow> (jsstring \<times> jsstring) list" where
  "matchList string =
     sort_key (\<lambda>m. - int (length (fst m) + length (snd m)))
       (concat
          (map (\<lambda>pfx.
                  map (\<lambda>unit. (pfx, unit))
                    (filter (\<lambda>unit. unit \<notin> set prefixlessUnits \<and> startsWith string (pfx @ unit))
                       units))
             (filter (\<lambda>pfx. pfx \<noteq> [] \<and> startsWith string pfx) (map fst prefixesTable)))
        @ map (\<lambda>unit. ([], unit)) (filter (\<lambda>unit. startsWith string unit) units))"

text \<open>
  \<^verbatim>\<open>out[k] = (out[k] || 0) + t[k]\<close> and \<^verbatim>\<open>out[k] = (out[k] || 0) - t[k]\<close> for every
  key \<^verbatim>\<open>k\<close> of \<^verbatim>\<open>t\<close>; \<^verbatim>\<open>e[k] *= x\<close> and \<^verbatim>\<open>e[k] = -e[k]\<close> for every key of \<^verbatim>\<open>e\<close>.
\<close>

definition addExponents :: "expvec \<Rightarrow> expvec \<Rightarrow> expvec" where
  "addExponents out t =
     (\<lambda>k. case t k of None \<Rightarrow> out k | Some v \<Rightarrow> Some (jsAdd (orZero (out k)) v))"

definition subExponents :: "expvec \<Rightarrow> expvec \<Rightarrow> expvec" where
  "subExponents out t =
     (\<lambda>k. case t k of None \<Rightarrow> out k | Some v \<Rightarrow> Some (jsSub (orZero (out k)) v))"

definition scaleExponents :: "expvec \<Rightarrow> jsnum \<Rightarrow> expvec" where
  "scaleExponents e x = (\<lambda>k. map_option (\<lambda>v. jsMul v x) (e k))"

definition negateExponents :: "expvec \<Rightarrow> expvec" where
  "negateExponents e = (\<lambda>k. map_option jsNeg (e k))"

definition parseBase :: "jsstring \<Rightarrow> unit_result outcome" where
  "parseBase string =
     (case matchList string of
        [] \<Rightarrow> Failure [] string
      | (pfx, unit) # others \<Rightarrow>
          (let consumed = pfx @ unit;
               ten = [str ''10'' \<mapsto>
                        (case map_of prefixesTable pfx of Some n \<Rightarrow> Exact n | None \<Rightarrow> NaN)]
           in Success consumed (drop (length consumed) string)
                (case map_of derivedUnits unit of
                   Some (unitExponents, unitConversion) \<Rightarrow>
                     \<lparr>exponents = addExponents ten (map_option Exact \<circ> map_of unitExponents),
                      conversion = (case unitConversion of Some f \<Rightarrow> f
                                    | None \<Rightarrow> (\<lambda>magnitude. magnitude))\<rparr>
                 | None \<Rightarrow>
                     \<lparr>exponents = ten(unit \<mapsto> Exact 1),
                      conversion = (\<lambda>magnitude. magnitude)\<rparr>)))"

text \<open>
  The candidates of the base matcher in the words of the specification: all pairs of
  a prefix of the table (the empty one included) and a unit (base, derived or
  per-unit) whose concatenation is a literal prefix of the input, a prefixless unit
  never with a non-empty prefix.
\<close>

definition candidatePairs :: "jsstring \<Rightarrow> (jsstring \<times> jsstring) set" where
  "candidatePairs input =
     {(p, u). p \<in> fst ` set prefixesTable \<and> u \<in> set units \<and> prefix (p @ u) input
        \<and> (p \<noteq> [] \<longrightarrow> u \<notin> set prefixlessUnits)}"

section \<open>Factor, term, magnitude and expression\<close>

definition parseFactor :: "jsstring \<Rightarrow> unit_result outcome" where
  "parseFactor string =
     (case parseBase string of
        Success baseConsumed baseRest baseRes \<Rightarrow>
          (case parseChar baseRest (str ''^'') of
             Success caretConsumed caretRest u \<Rightarrow>
               (case parseExponent caretRest of
                  Success exponentConsumed exponentRest exponent \<Rightarrow>
                    Success (baseConsumed @ caretConsumed @ exponentConsumed) exponentRest
                      \<lparr>exponents = scaleExponents (exponents baseRes) exponent,
                       conversion = conversion baseRes\<rparr>
                | Failure exponentConsumed exponentRest \<Rightarrow>
                    Failure (baseConsumed @ caretConsumed @ exponentConsumed) string)
           | Failure caretConsumed caretRest \<Rightarrow> Success baseConsumed baseRest baseRes)
      | Failure baseConsumed baseRest \<Rightarrow> Failure baseConsumed string)"


text \<open>
  A success consumes a prefix of the input and leaves the remainder; a failure
  keeps the whole input as \<^verbatim>\<open>rest\<close> and reports a prefix of it as \<^verbatim>\<open>consumed\<close>.
  The recursion of the term rule terminates because a factor consumes at least one
  code unit.
\<close>

definition wellFormed :: "jsstring \<Rightarrow> 'a outcome \<Rightarrow> bool" where
  "wellFormed string out =
     (case out of
        Success c r x \<Rightarrow> c @ r = string
      | Failure c r \<Rightarrow> r = string \<and> prefix c string)"

lemma wellFormed_Success [simp]: "wellFormed s (Success c r x) = (c @ r = s)"
  by (simp add: wellFormed_def)

lemma wellFormed_Failure [simp]: "wellFormed s (Failure c r) = (r = s \<and> prefix c s)"
  by (simp add: wellFormed_def)

lemma wellFormed_prefix: "wellFormed s out \<Longrightarrow> prefix (consumed out) s"
  by (cases out) auto

lemma wellFormed_parseChar: "wellFormed s (parseChar s char)"
  by (simp add: parseChar_def charAt0_def)

lemma wellFormed_parseDigits: "wellFormed s (parseDigits s)"
  by (simp add: parseDigits_def Let_def)

lemma parseDigits_Failure: "parseDigits s = Failure c r \<Longrightarrow> c = [] \<and> r = s"
  by (auto simp: parseDigits_def Let_def split: if_splits)

lemma wellFormed_parseDotDigits: "wellFormed s (parseDotDigits s)"
proof (cases "parseChar s (str ''.'')")
  case (Failure pc pr)
  with wellFormed_parseChar [of s "str ''.''"] show ?thesis by (simp add: parseDotDigits_def)
next
  case (Success pc pr u)
  with wellFormed_parseChar [of s "str ''.''"] have s: "pc @ pr = s" by simp
  have "prefix (consumed (parseDigits pr)) pr"
    by (rule wellFormed_prefix [OF wellFormed_parseDigits])
  then obtain t where "pr = consumed (parseDigits pr) @ t" by (auto simp: prefix_def)
  then have "s = (pc @ consumed (parseDigits pr)) @ t" using s by simp
  then have "(pc @ consumed (parseDigits pr)) @ drop (length (pc @ consumed (parseDigits pr))) s = s"
    by (metis append_eq_conv_conj)
  with Success show ?thesis by (simp add: parseDotDigits_def Let_def)
qed

lemma wellFormed_parseInteger: "wellFormed s (parseInteger s)"
proof (induction s rule: parseInteger.induct)
  case (1 string)
  show ?case
  proof (cases "parseChar string (str ''+'')")
    case (Success pc pr u)
    with wellFormed_parseChar [of string "str ''+''"] have s: "pc @ pr = string" by simp
    from "1.IH" Success have "wellFormed pr (parseInteger pr)" by blast
    with Success s show ?thesis
      by (subst parseInteger.simps) (auto split: outcome.splits)
  next
    case plus: (Failure pc pr)
    show ?thesis
    proof (cases "parseChar string (str ''-'')")
      case (Success mc mr u)
      with wellFormed_parseChar [of string "str ''-''"] have s: "mc @ mr = string" by simp
      from "1.IH" plus Success have "wellFormed mr (parseInteger mr)" by blast
      with plus Success s show ?thesis
        by (subst parseInteger.simps) (auto split: outcome.splits)
    next
      case (Failure mc mr)
      with plus wellFormed_parseDigits [of string] show ?thesis
        by (subst parseInteger.simps) (auto split: outcome.splits)
    qed
  qed
qed

lemma wellFormed_parseDecimal: "wellFormed s (parseDecimal s)"
proof (induction s rule: parseDecimal.induct)
  case (1 string)
  show ?case
  proof (cases "parseChar string (str ''+'')")
    case (Success pc pr u)
    with wellFormed_parseChar [of string "str ''+''"] have s: "pc @ pr = string" by simp
    from "1.IH" Success have "wellFormed pr (parseDecimal pr)" by blast
    with Success s show ?thesis
      by (subst parseDecimal.simps) (auto split: outcome.splits)
  next
    case plus: (Failure pc pr)
    show ?thesis
    proof (cases "parseChar string (str ''-'')")
      case (Success mc mr u)
      with wellFormed_parseChar [of string "str ''-''"] have s: "mc @ mr = string" by simp
      from "1.IH" plus Success have "wellFormed mr (parseDecimal mr)" by blast
      with plus Success s show ?thesis
        by (subst parseDecimal.simps) (auto split: outcome.splits)
    next
      case (Failure mc mr)
      have d: "wellFormed string (parseDigits string)" by (rule wellFormed_parseDigits)
      have dd: "wellFormed (rest (parseDigits string)) (parseDotDigits (rest (parseDigits string)))"
        by (rule wellFormed_parseDotDigits)
      from plus Failure d dd show ?thesis
        by (subst parseDecimal.simps)
          (cases "parseDigits string"; auto simp: Let_def split: outcome.splits dest: parseDigits_Failure)
    qed
  qed
qed

lemma matchList_startsWith:
  "(pfx, unit) \<in> set (matchList s) \<Longrightarrow> startsWith s (pfx @ unit)"
  by (auto simp: matchList_def)

lemma units_nonempty: "unit \<in> set units \<Longrightarrow> unit \<noteq> []"
  by (auto simp: units_def baseUnits_def perUnits_def derivedUnits_def str_def ohm_def degreeC_def)

lemma matchList_units: "(pfx, unit) \<in> set (matchList s) \<Longrightarrow> unit \<in> set units"
  by (auto simp: matchList_def)

lemma wellFormed_parseBase: "wellFormed s (parseBase s)"
proof (cases "matchList s")
  case Nil
  then show ?thesis by (simp add: parseBase_def)
next
  case (Cons m ms)
  obtain pfx unit where m: "m = (pfx, unit)" by (cases m)
  with Cons have "(pfx, unit) \<in> set (matchList s)" by simp
  then have "prefix (pfx @ unit) s" by (auto dest: matchList_startsWith simp: startsWith_def)
  then have "(pfx @ unit) @ drop (length (pfx @ unit)) s = s"
    by (metis append_eq_conv_conj prefix_def)
  with Cons m show ?thesis by (simp add: parseBase_def Let_def)
qed

lemma parseBase_consumed_nonempty: "parseBase s = Success c r x \<Longrightarrow> c \<noteq> []"
proof (cases "matchList s")
  case Nil
  assume "parseBase s = Success c r x"
  with Nil show ?thesis by (simp add: parseBase_def)
next
  case (Cons m ms)
  assume p: "parseBase s = Success c r x"
  obtain pfx unit where m: "m = (pfx, unit)" by (cases m)
  with Cons have "(pfx, unit) \<in> set (matchList s)" by simp
  then have "unit \<noteq> []" by (auto dest: matchList_units units_nonempty)
  with Cons m p show ?thesis by (auto simp: parseBase_def Let_def)
qed

lemma wellFormed_parseFactor: "wellFormed s (parseFactor s)"
proof (cases "parseBase s")
  case (Failure bc br)
  with wellFormed_parseBase [of s] show ?thesis by (simp add: parseFactor_def)
next
  case b: (Success bc br bres)
  with wellFormed_parseBase [of s] have s: "bc @ br = s" by simp
  show ?thesis
  proof (cases "parseChar br (str ''^'')")
    case (Failure cc cr)
    with b s show ?thesis by (simp add: parseFactor_def)
  next
    case c: (Success cc cr u)
    with wellFormed_parseChar [of br "str ''^''"] have r: "cc @ cr = br" by simp
    from wellFormed_parseInteger [of cr] b c s r show ?thesis
      by (auto simp: parseFactor_def parseExponent_def split: outcome.splits)
  qed
qed

lemma parseFactor_rest_shorter:
  assumes "parseFactor s = Success c r x"
  shows "length r < length s"
proof -
  from assms wellFormed_parseFactor [of s] have s: "c @ r = s" by simp
  from assms have "c \<noteq> []"
    by (auto simp: parseFactor_def split: outcome.splits dest: parseBase_consumed_nonempty)
  with s show ?thesis by (cases c) auto
qed

function parseTerm :: "jsstring \<Rightarrow> unit_result outcome"
  and parseAsterixTerm :: "jsstring \<Rightarrow> unit_result outcome"
  and parseSlashTerm :: "jsstring \<Rightarrow> unit_result outcome"
  and parseCharTerm :: "jsstring \<Rightarrow> jsstring \<Rightarrow> unit_result outcome" where
  "parseTerm string =
     (case parseChar string (str ''('') of
        Success openConsumed openRest u \<Rightarrow>
          (case parseTerm openRest of
             Success betweenConsumed betweenRest betweenRes \<Rightarrow>
               (case parseChar betweenRest (str '')'') of
                  Success closeConsumed closeRest v \<Rightarrow>
                    Success (openConsumed @ betweenConsumed @ closeConsumed) closeRest betweenRes
                | Failure closeConsumed closeRest \<Rightarrow>
                    Failure (openConsumed @ betweenConsumed @ closeConsumed) string)
           | Failure betweenConsumed betweenRest \<Rightarrow>
               Failure (openConsumed @ betweenConsumed) string)
      | Failure openConsumed openRest \<Rightarrow>
          (case parseFactor string of
             Success factorConsumed factorRest factorRes \<Rightarrow>
               (case parseAsterixTerm factorRest of
                  Success asterixConsumed asterixRest asterixRes \<Rightarrow>
                    Success (factorConsumed @ asterixConsumed) asterixRest
                      \<lparr>exponents = addExponents (exponents factorRes) (exponents asterixRes),
                       conversion = (\<lambda>magnitude.
                         conversion factorRes (conversion asterixRes magnitude))\<rparr>
                | Failure asterixConsumed asterixRest \<Rightarrow>
                    (case parseSlashTerm factorRest of
                       Success slashConsumed slashRest slashRes \<Rightarrow>
                         Success (factorConsumed @ slashConsumed) slashRest
                           \<lparr>exponents = subExponents (exponents factorRes) (exponents slashRes),
                            conversion = (\<lambda>magnitude.
                              conversion factorRes (conversion slashRes magnitude))\<rparr>
                     | Failure slashConsumed slashRest \<Rightarrow>
                         Success factorConsumed factorRest factorRes))
           | Failure factorConsumed factorRest \<Rightarrow> Failure factorConsumed string))"
| "parseAsterixTerm string = parseCharTerm string (str ''*'')"
| "parseSlashTerm string = parseCharTerm string (str ''/'')"
| "parseCharTerm string char =
     (case parseChar string char of
        Success charConsumed charRest u \<Rightarrow>
          (case parseTerm charRest of
             Success termConsumed termRest termRes \<Rightarrow>
               Success (charConsumed @ termConsumed) termRest termRes
           | Failure termConsumed termRest \<Rightarrow> Failure (charConsumed @ termConsumed) string)
      | Failure charConsumed charRest \<Rightarrow> Failure charConsumed string)"
  by pat_completeness auto
termination
  by (relation "measure (\<lambda>x. case x of
          Inl (Inl string) \<Rightarrow> 3 * length string + 1
        | Inl (Inr string) \<Rightarrow> 3 * length string + 3
        | Inr (Inl string) \<Rightarrow> 3 * length string + 3
        | Inr (Inr (string, char)) \<Rightarrow> 3 * length string + 2)")
    (auto dest!: parseFactor_rest_shorter parseChar_rest simp: str_def)

declare parseTerm.simps [simp del]
declare parseCharTerm.simps [simp del]


record magnitude_result =
  significand :: jsnum
  exponent :: jsnum

definition parseMagnitude :: "jsstring \<Rightarrow> magnitude_result outcome" where
  "parseMagnitude string =
     (case parseSignificand string of
        Success significandConsumed significandRest significandRes \<Rightarrow>
          (let operator =
                 (if startsWith significandRest (str ''*10^'') then Some (str ''*10^'')
                  else if charAt0 significandRest = str ''E'' \<or> charAt0 significandRest = str ''e''
                  then Some (take 1 significandRest)
                  else None)
           in case operator of
                Some operator \<Rightarrow>
                  (case parseExponent (drop (length operator) significandRest) of
                     Success exponentConsumed exponentRest exponentRes \<Rightarrow>
                       (let consumed = significandConsumed @ operator @ exponentConsumed
                        in Success consumed (drop (length consumed) string)
                             \<lparr>significand = significandRes, exponent = exponentRes\<rparr>)
                   | Failure exponentConsumed exponentRest \<Rightarrow>
                       Failure (significandConsumed @ operator @ exponentConsumed) string)
              | None \<Rightarrow>
                  Success significandConsumed significandRest
                    \<lparr>significand = significandRes, exponent = Exact 0\<rparr>)
      | Failure significandConsumed significandRest \<Rightarrow> Failure significandConsumed string)"

text \<open>
  The result of an expression is \<^verbatim>\<open>{magnitude, exponents}\<close>; its exponent vector is
  the field \<open>expExponents\<close> here, and the two strings \<^verbatim>\<open>{magnitude, units}\<close> that
  \<^verbatim>\<open>_normalizeUnits\<close> returns are \<open>magnitudeString\<close> and \<open>unitsString\<close>, after the
  locals that fill them.

  A call completes by returning, or by throwing: \<^verbatim>\<open>_parseExpression\<close> reads
  \<^verbatim>\<open>magnitudeResult.result.significand\<close> of a failed magnitude when the rest is
  empty, which is a \<^verbatim>\<open>TypeError\<close>. \<open>Undetermined\<close> is the completion of the model
  where the text to return depends on a number the model does not determine.
\<close>

record expression_result =
  magnitude :: jsnum
  expExponents :: expvec

datatype exn = TypeError | Error jsstring

datatype 'a completion = Returns 'a | Throws exn | Undetermined

definition parseExpression :: "jsstring \<Rightarrow> expression_result outcome completion" where
  "parseExpression string =
     (let magnitudeResult = parseMagnitude string
      in if success magnitudeResult \<or> consumed magnitudeResult = []
         then
           if rest magnitudeResult \<noteq> []
           then
             (let operator =
                    (if charAt0 (rest magnitudeResult) = str ''*'' then str ''*''
                     else if charAt0 (rest magnitudeResult) = str ''/'' then str ''/''
                     else []);
                  rest' = drop (if operator = [] then 0 else 1) (rest magnitudeResult)
              in case parseTerm rest' of
                   Success termConsumed termRest termRes \<Rightarrow>
                     (let exponents =
                            (if operator = str ''/'' then negateExponents (exponents termRes)
                             else exponents termRes)
                      in Returns
                           (Success (consumed magnitudeResult @ operator @ termConsumed) termRest
                              (case magnitudeResult of
                                 Success mc mr magnitudeRes \<Rightarrow>
                                   \<lparr>magnitude = conversion termRes (significand magnitudeRes),
                                    expExponents = exponents(str ''10'' \<mapsto>
                                      plusAssign (exponents (str ''10'')) (exponent magnitudeRes))\<rparr>
                               | Failure mc mr \<Rightarrow>
                                   \<lparr>magnitude = NaN, expExponents = exponents\<rparr>)))
                 | Failure termConsumed termRest \<Rightarrow>
                     Returns (Failure (consumed magnitudeResult @ operator @ termConsumed) string))
           else
             (case magnitudeResult of
                Success mc mr magnitudeRes \<Rightarrow>
                  Returns
                    (Success mc mr
                       \<lparr>magnitude = significand magnitudeRes,
                        expExponents = [str ''10'' \<mapsto> exponent magnitudeRes]\<rparr>)
              | Failure mc mr \<Rightarrow> Throws TypeError)
         else Returns (Failure (consumed magnitudeResult) string))"

section \<open>The canonicalizer and the entry point\<close>

record normalized =
  magnitudeString :: jsstring
  unitsString :: jsstring

definition canonicalKeys :: "jsstring list" where
  "canonicalKeys =
     [str ''10'', str ''g'', str ''m'', str ''s'', str ''A'', str ''K'', str ''cd'', str ''mol'',
      str ''%'', str ''ppm'', str ''ppb'', str ''ppt'', str ''ppq'']"

fun join :: "jsstring \<Rightarrow> jsstring list \<Rightarrow> jsstring" where
  "join sep [] = []"
| "join sep [x] = x"
| "join sep (x # y # ys) = x @ sep @ join sep (y # ys)"

text \<open>
  \<^verbatim>\<open>JSON.stringify(magnitude) + (exponents['10'] !== 0 ? '*10^' + exponents['10'] : '')\<close>
  and \<^verbatim>\<open>unit + (exponents[unit] !== 1 ? '^' + exponents[unit] : '')\<close>.
\<close>

definition renderMagnitude :: "jsnum \<Rightarrow> expvec \<Rightarrow> jsstring option" where
  "renderMagnitude m exps =
     (case JSON_stringify m of
        None \<Rightarrow> None
      | Some ms \<Rightarrow>
          (case strictNeq (exps (str ''10'')) 0 of
             None \<Rightarrow> None
           | Some True \<Rightarrow> map_option (\<lambda>t. ms @ str ''*10^'' @ t) (numToString (exps (str ''10'')))
           | Some False \<Rightarrow> Some ms))"

definition renderUnit :: "expvec \<Rightarrow> jsstring \<Rightarrow> jsstring option" where
  "renderUnit exps unit =
     (case strictNeq (exps unit) 1 of
        None \<Rightarrow> None
      | Some True \<Rightarrow> map_option (\<lambda>t. unit @ str ''^'' @ t) (numToString (exps unit))
      | Some False \<Rightarrow> Some unit)"

text \<open>
  The source checks \<^verbatim>\<open>typeof(string) !== 'string'\<close> first and throws; the argument
  is a string here. Its \<^verbatim>\<open>failureResult\<close> holds the argument as it was passed, before
  the spaces are removed.
\<close>

definition normalizeUnits_inner :: "jsstring \<Rightarrow> normalized outcome completion" where
  "normalizeUnits_inner string =
     (let stripped = stripSpaces string
      in if stripped = []
         then Returns (Success [] [] \<lparr>magnitudeString = [], unitsString = []\<rparr>)
         else
           (case parseExpression stripped of
              Returns (Success expressionConsumed expressionRest expressionRes) \<Rightarrow>
                (let exps = expExponents expressionRes;
                     present = filter (\<lambda>unit. exps unit \<noteq> None) canonicalKeys
                 in case (renderMagnitude (magnitude expressionRes) exps,
                          those (map (renderUnit exps)
                                   (filter (\<lambda>unit. unit \<noteq> str ''10'') present))) of
                      (Some renderedMagnitude, Some renderedUnits) \<Rightarrow>
                        Returns
                          (Success expressionConsumed expressionRest
                             \<lparr>magnitudeString = renderedMagnitude,
                              unitsString = join (str ''*'') renderedUnits\<rparr>)
                    | _ \<Rightarrow> Undetermined)
            | Returns (Failure expressionConsumed expressionRest) \<Rightarrow>
                Returns (Failure expressionConsumed string)
            | Throws e \<Rightarrow> Throws e
            | Undetermined \<Rightarrow> Undetermined))"

text \<open>
  Modelled from the spec: \<^verbatim>\<open>_throttle\<close>, the call-rate throttling wrapper around the
  entry point, is not among the sources. The specification describes it as a
  decorator that does not alter the semantics of the function it wraps, so it is
  the application of the function to its argument.
\<close>

definition throttle :: "(jsstring \<Rightarrow> 'a) \<Rightarrow> jsstring \<Rightarrow> 'a" where
  "throttle f string = f string"

definition errorMessage :: "jsstring \<Rightarrow> jsstring \<Rightarrow> jsstring" where
  "errorMessage c string =
     str ''Unable to parse after '' @ [39] @ c @ [39] @ str '' in '' @ [39] @ string @ [39]
       @ str ''. Are you sure metric units are being used?''"

definition normalizeUnits :: "jsstring \<Rightarrow> jsstring completion" where
  "normalizeUnits string =
     (case throttle normalizeUnits_inner string of
        Returns (Success c r normalizeUnitsRes) \<Rightarrow>
          Returns
            (if magnitudeString normalizeUnitsRes = [] \<and> unitsString normalizeUnitsRes = []
             then []
             else magnitudeString normalizeUnitsRes
                  @ (if unitsString normalizeUnitsRes = str ''%''
                        \<or> unitsString normalizeUnitsRes = []
                     then [] else str '' '')
                  @ unitsString normalizeUnitsRes)
      | Returns (Failure c r) \<Rightarrow> Throws (Error (errorMessage c string))
      | Throws e \<Rightarrow> Throws e
      | Undetermined \<Rightarrow> Undetermined)"


text \<open>
  The units string in the words of the specification: the keys of the canonical
  order without 10, each as \<^verbatim>\<open>key\<close> for the exponent 1 and \<^verbatim>\<open>key^exponent\<close>
  otherwise.
\<close>

definition unitKeys :: "jsstring list" where
  "unitKeys =
     [str ''g'', str ''m'', str ''s'', str ''A'', str ''K'', str ''cd'', str ''mol'',
      str ''%'', str ''ppm'', str ''ppb'', str ''ppt'', str ''ppq'']"

definition unitText :: "jsstring \<Rightarrow> int \<Rightarrow> jsstring" where
  "unitText k n = (if n = 1 then k else k @ str ''^'' @ intToString n)"

section \<open>Notions for the proofs\<close>

text \<open>
  What may follow a printed number or a printed unit, the exponent vector that a
  list of keys with integer exponents stands for, and the two strings that the
  canonicalizer prints for an integer magnitude, an exponent of ten and such a list.
\<close>

definition noDigitAhead :: "jsstring \<Rightarrow> bool" where
  "noDigitAhead t = (case t of [] \<Rightarrow> True | c # u \<Rightarrow> \<not> isDigit c)"

definition noNumberAhead :: "jsstring \<Rightarrow> bool" where
  "noNumberAhead t = (case t of [] \<Rightarrow> True | c # u \<Rightarrow> \<not> isDigit c \<and> c \<noteq> 46)"

definition unitEnd :: "jsstring \<Rightarrow> bool" where
  "unitEnd t = (case t of [] \<Rightarrow> True | c # u \<Rightarrow> c = 94 \<or> c = 42)"

definition vec :: "(jsstring \<times> int) list \<Rightarrow> expvec" where
  "vec kns = (map_of (map (\<lambda>(k, n). (k, Exact n)) kns))(str ''10'' \<mapsto> Exact 0)"

definition renderedUnits :: "(jsstring \<times> int) list \<Rightarrow> jsstring" where
  "renderedUnits kns = join (str ''*'') (map (\<lambda>(k, n). unitText k n) kns)"

definition renderedMagnitude :: "int \<Rightarrow> int \<Rightarrow> jsstring" where
  "renderedMagnitude n ten =
     intToString n @ (if ten \<noteq> 0 then str ''*10^'' @ intToString ten else [])"

definition unitsAhead :: "jsstring \<Rightarrow> bool" where
  "unitsAhead t =
     (case t of [] \<Rightarrow> True | c # u \<Rightarrow> c \<in> {103, 109, 115, 65, 75, 99, 37, 112})"

text \<open>
  The run of sign characters at the start of a string, and the operator that the
  expression rule reads between the magnitude and the term.
\<close>

definition signs :: "jsstring \<Rightarrow> jsstring" where
  "signs string = takeWhile (\<lambda>c. c = 43 \<or> c = 45) string"

definition operatorOf :: "jsstring \<Rightarrow> jsstring" where
  "operatorOf r = (if prefix (str ''*'') r then str ''*''
                   else if prefix (str ''/'') r then str ''/'' else [])"

section \<open>Outcomes are well formed\<close>

lemma wf_SuccessD: "wellFormed s out \<Longrightarrow> out = Success c r x \<Longrightarrow> c @ r = s"
  by simp

lemma wf_FailureD: "wellFormed s out \<Longrightarrow> out = Failure c r \<Longrightarrow> r = s \<and> prefix c s"
  by simp

lemma parseChar_SuccessD: "parseChar s ch = Success c r u \<Longrightarrow> c @ r = s"
  using wellFormed_parseChar [of s ch] by simp

lemma parseChar_FailureD: "parseChar s ch = Failure c r \<Longrightarrow> c = [] \<and> r = s"
  by (auto simp: parseChar_def split: if_splits)

lemma parseFactor_SuccessD: "parseFactor s = Success c r x \<Longrightarrow> c @ r = s"
  using wellFormed_parseFactor [of s] by simp

lemma parseFactor_FailureD: "parseFactor s = Failure c r \<Longrightarrow> r = s \<and> prefix c s"
  using wellFormed_parseFactor [of s] by simp

lemma wellFormed_parseTerm_all:
  "wellFormed s (parseTerm s)"
  "wellFormed s1 (parseAsterixTerm s1)"
  "wellFormed s2 (parseSlashTerm s2)"
  "wellFormed s3 (parseCharTerm s3 ch)"
proof (induction s and s1 and s2 and s3 ch
    rule: parseTerm_parseAsterixTerm_parseSlashTerm_parseCharTerm.induct)
  case (1 string)
  show ?case
  proof (cases "parseChar string (str ''('')")
    case op: (Success oc orest u)
    then have s: "oc @ orest = string" by (rule parseChar_SuccessD)
    from "1.IH" op have ih: "wellFormed orest (parseTerm orest)" by blast
    show ?thesis
    proof (cases "parseTerm orest")
      case (Failure bc br)
      with ih op s show ?thesis by (subst parseTerm.simps) auto
    next
      case b: (Success bc br bres)
      with ih have br: "bc @ br = orest" by simp
      show ?thesis
      proof (cases "parseChar br (str '')'')")
        case (Failure cc cr)
        then have "cc = []" by (auto dest: parseChar_FailureD)
        with Failure op b s br show ?thesis by (subst parseTerm.simps) auto
      next
        case (Success cc cr v)
        then have "cc @ cr = br" by (rule parseChar_SuccessD)
        with Success op b s br show ?thesis by (subst parseTerm.simps) auto
      qed
    qed
  next
    case op: (Failure oc orest)
    show ?thesis
    proof (cases "parseFactor string")
      case (Failure fc fr)
      then have "prefix fc string" by (auto dest: parseFactor_FailureD)
      with op Failure show ?thesis by (subst parseTerm.simps) auto
    next
      case f: (Success fc fr fres)
      then have s: "fc @ fr = string" by (rule parseFactor_SuccessD)
      from "1.IH" op f have iha: "wellFormed fr (parseAsterixTerm fr)" by blast
      show ?thesis
      proof (cases "parseAsterixTerm fr")
        case (Success ac ar ares)
        with iha have "ac @ ar = fr" by simp
        with op f s Success show ?thesis by (subst parseTerm.simps) auto
      next
        case a: (Failure ac ar)
        from "1.IH" op f a have ihs: "wellFormed fr (parseSlashTerm fr)" by blast
        show ?thesis
        proof (cases "parseSlashTerm fr")
          case (Success sc sr sres)
          with ihs have "sc @ sr = fr" by simp
          with op f s a Success show ?thesis by (subst parseTerm.simps) auto
        next
          case (Failure sc sr)
          with op f s a show ?thesis by (subst parseTerm.simps) auto
        qed
      qed
    qed
  qed
next
  case (2 string)
  then show ?case by simp
next
  case (3 string)
  then show ?case by simp
next
  case (4 string char)
  show ?case
  proof (cases "parseChar string char")
    case (Failure cc cr)
    then have "cc = []" by (auto dest: parseChar_FailureD)
    with Failure show ?thesis by (subst parseCharTerm.simps) auto
  next
    case c: (Success cc cr u)
    then have s: "cc @ cr = string" by (rule parseChar_SuccessD)
    from "4.IH" c have "wellFormed cr (parseTerm cr)" by blast
    with c s show ?thesis
      by (subst parseCharTerm.simps) (auto split: outcome.splits)
  qed
qed

lemma wellFormed_parseMagnitude: "wellFormed s (parseMagnitude s)"
proof (cases "parseDecimal s")
  case (Failure sc sr)
  with wellFormed_parseDecimal [of s] show ?thesis
    by (simp add: parseMagnitude_def parseSignificand_def)
next
  case sg: (Success sc sr sres)
  with wellFormed_parseDecimal [of s] have s: "sc @ sr = s" by simp
  have pre: "prefix (sc @ op @ consumed (parseInteger (drop (length op) sr))) s"
    if "prefix op sr" for op
  proof -
    from that obtain t where t: "sr = op @ t" by (auto simp: prefix_def)
    then have "drop (length op) sr = t" by simp
    moreover have "prefix (consumed (parseInteger t)) t"
      by (rule wellFormed_prefix [OF wellFormed_parseInteger])
    ultimately show ?thesis using s t by auto
  qed
  have fin: "wellFormed s
      (case parseExponent (drop (length op) sr) of
         Success ec er eres \<Rightarrow>
           (let consumed = sc @ op @ ec
            in Success consumed (drop (length consumed) s)
                 \<lparr>significand = sres, exponent = eres\<rparr>)
       | Failure ec er \<Rightarrow> Failure (sc @ op @ ec) s)"
    if "prefix op sr" for op
  proof -
    from pre [OF that] obtain t where
      "s = (sc @ op @ consumed (parseInteger (drop (length op) sr))) @ t"
      by (auto simp: prefix_def)
    then have "(sc @ op @ consumed (parseInteger (drop (length op) sr)))
        @ drop (length (sc @ op @ consumed (parseInteger (drop (length op) sr)))) s = s"
      by (metis append_eq_conv_conj)
    with pre [OF that] show ?thesis
      by (cases "parseInteger (drop (length op) sr)") (auto simp: parseExponent_def Let_def)
  qed
  have t1: "prefix (take 1 sr) sr" by (simp add: take_is_prefix)
  from sg s fin [of "str ''*10^''"] fin [OF t1] show ?thesis
    by (auto simp: parseMagnitude_def parseSignificand_def Let_def startsWith_def
          simp del: One_nat_def)
qed


lemma wellFormed_parseExpression:
  assumes "parseExpression s = Returns out"
  shows "wellFormed s out"
proof -
  have m: "wellFormed s (parseMagnitude s)" by (rule wellFormed_parseMagnitude)
  have t: "wellFormed x (parseTerm x)" for x by (rule wellFormed_parseTerm_all)
  show ?thesis
  proof (cases "parseMagnitude s")
    case (Success mc mr mres)
    with m have s: "mc @ mr = s" by simp
    show ?thesis
    proof (cases mr)
      case Nil
      with assms Success s show ?thesis
        by (auto simp: parseExpression_def Let_def)
    next
      case (Cons c cs)
      with assms Success s t [of mr] t [of cs] show ?thesis
        by (auto simp: parseExpression_def Let_def str_def charAt0_def
            split: if_splits outcome.splits)
    qed
  next
    case (Failure mc mr)
    with m have s: "mr = s" "prefix mc s" by simp_all
    show ?thesis
    proof (cases s)
      case Nil
      with assms Failure s show ?thesis
        by (auto simp: parseExpression_def Let_def)
    next
      case (Cons c cs)
      with assms Failure s t [of s] t [of cs] show ?thesis
        by (auto simp: parseExpression_def Let_def str_def charAt0_def
            split: if_splits outcome.splits)
    qed
  qed
qed

lemma normalizeUnits_inner_Failure:
  "normalizeUnits_inner s = Returns (Failure c r) \<Longrightarrow> r = s"
  by (auto simp: normalizeUnits_inner_def Let_def
      split: if_splits completion.splits outcome.splits option.splits)


section \<open>Evaluating the rules on a given string\<close>

text \<open>
  The recursive rules unfold along the first code unit of the input; the facts
  collected in \<open>ev\<close> let the simplifier run a rule on a literal.
\<close>

named_theorems ev

lemma parseChar_Nil [ev]: "parseChar [] [d] = Failure [] []"
  by (simp add: parseChar_def charAt0_def)

lemma parseChar_Cons [ev]:
  "parseChar (c # s) [d] = (if d = c then Success [d] s () else Failure [] (c # s))"
  by (simp add: parseChar_def charAt0_def)

lemma parseInteger_Nil [ev]: "parseInteger [] = Failure [] []"
  by (subst parseInteger.simps) (simp add: parseChar_Nil parseDigits_def str_def)

lemma parseInteger_Cons [ev]:
  "parseInteger (c # s) =
     (if c = 43 then
        (case parseInteger s of
           Success cs r x \<Rightarrow> Success (43 # cs) r x
         | Failure cs r \<Rightarrow> Failure (43 # cs) (c # s))
      else if c = 45 then
        (case parseInteger s of
           Success cs r x \<Rightarrow> Success (45 # cs) r (jsNeg x)
         | Failure cs r \<Rightarrow> Failure (45 # cs) (c # s))
      else
        (case parseDigits (c # s) of
           Success cs r x \<Rightarrow> Success cs r x
         | Failure cs r \<Rightarrow> Failure cs (c # s)))"
  by (subst parseInteger.simps) (auto simp: parseChar_Cons str_def split: outcome.splits)

lemma parseDecimal_Nil [ev]: "parseDecimal [] = Failure [] []"
  by (subst parseDecimal.simps)
    (simp add: parseChar_Nil parseDigits_def parseDotDigits_def str_def)

lemma parseDecimal_Cons [ev]:
  "parseDecimal (c # s) =
     (if c = 43 then
        (case parseDecimal s of
           Success cs r x \<Rightarrow> Success (43 # cs) r x
         | Failure cs r \<Rightarrow> Failure (43 # cs) (c # s))
      else if c = 45 then
        (case parseDecimal s of
           Success cs r x \<Rightarrow> Success (45 # cs) r (jsNeg x)
         | Failure cs r \<Rightarrow> Failure (45 # cs) (c # s))
      else
        (let digitsResult = parseDigits (c # s)
         in case parseDotDigits (rest digitsResult) of
              Success dotConsumed dotRest x \<Rightarrow>
                Success (consumed digitsResult @ dotConsumed) dotRest
                  (parseFloat (consumed digitsResult @ dotConsumed))
            | Failure dotConsumed dotRest \<Rightarrow> digitsResult))"
  by (subst parseDecimal.simps) (auto simp: parseChar_Cons str_def Let_def split: outcome.splits)

lemma matchList_Nil: "matchList [] = []"
  by (simp add: matchList_def startsWith_def units_def baseUnits_def perUnits_def
      derivedUnits_def prefixesTable_def str_def ohm_def micro_def degreeC_def)

lemma parseFactor_Nil [ev]: "parseFactor [] = Failure [] []"
  by (simp add: parseFactor_def parseBase_def matchList_Nil)

lemma parseTerm_Nil [ev]: "parseTerm [] = Failure [] []"
  by (subst parseTerm.simps) (simp add: parseChar_Nil parseFactor_Nil str_def)

lemma parseCharTerm_Nil [ev]: "parseCharTerm [] [d] = Failure [] []"
  by (subst parseCharTerm.simps) (simp add: parseChar_Nil)

lemma parseCharTerm_Cons [ev]:
  "parseCharTerm (c # s) [d] =
     (if d = c then
        (case parseTerm s of
           Success tc tr tres \<Rightarrow> Success (d # tc) tr tres
         | Failure tc tr \<Rightarrow> Failure (d # tc) (c # s))
      else Failure [] (c # s))"
  by (subst parseCharTerm.simps) (auto simp: parseChar_Cons split: outcome.splits)

lemma parseTerm_Cons [ev]:
  "parseTerm (c # s) =
     (if c = 40 then
        (case parseTerm s of
           Success bc br bres \<Rightarrow>
             (case parseChar br [41] of
                Success cc cr v \<Rightarrow> Success (40 # bc @ cc) cr bres
              | Failure cc cr \<Rightarrow> Failure (40 # bc @ cc) (c # s))
         | Failure bc br \<Rightarrow> Failure (40 # bc) (c # s))
      else
        (case parseFactor (c # s) of
           Success fc fr fres \<Rightarrow>
             (case parseAsterixTerm fr of
                Success ac ar ares \<Rightarrow>
                  Success (fc @ ac) ar
                    \<lparr>exponents = addExponents (exponents fres) (exponents ares),
                     conversion = (\<lambda>m. conversion fres (conversion ares m))\<rparr>
              | Failure ac ar \<Rightarrow>
                  (case parseSlashTerm fr of
                     Success sc sr sres \<Rightarrow>
                       Success (fc @ sc) sr
                         \<lparr>exponents = subExponents (exponents fres) (exponents sres),
                          conversion = (\<lambda>m. conversion fres (conversion sres m))\<rparr>
                   | Failure sc sr \<Rightarrow> Success fc fr fres))
         | Failure fc fr \<Rightarrow> Failure fc (c # s)))"
  by (subst parseTerm.simps) (auto simp: parseChar_Cons str_def split: outcome.splits)

lemmas tables = matchList_def startsWith_def units_def baseUnits_def perUnits_def
      derivedUnits_def prefixesTable_def prefixlessUnits_def str_def ohm_def micro_def degreeC_def


lemmas lexdefs = parseExpression_def parseMagnitude_def parseSignificand_def
      parseDigits_def parseDotDigits_def isDigit_def parseInt_def digitsValue_def exact_def
      parseFactor_def parseBase_def parseExponent_def charAt0_def startsWith_def str_def Let_def

lemma str_eq_Nil [simp]: "(str cs = []) = (cs = [])"
  by (simp add: str_def)

lemma matchList_qPa: "matchList (str ''qPa'') = []"
  by (simp add: tables)

lemma parseExpression_50qPa:
  "parseExpression (str ''50qPa'') = Returns (Failure (str ''50'') (str ''50qPa''))"
  using matchList_qPa by (simp add: lexdefs ev)

lemma parseExpression_qPa:
  "parseExpression (str ''qPa'') = Returns (Failure [] (str ''qPa''))"
  using matchList_qPa by (simp add: lexdefs ev)

lemma stripSpaces_50qPa: "stripSpaces (str ''50 qPa'') = str ''50qPa''"
  by (simp add: stripSpaces_def str_def)

lemma normalizeUnits_inner_50qPa:
  "normalizeUnits_inner (str ''50 qPa'') = Returns (Failure (str ''50'') (str ''50 qPa''))"
  by (simp add: normalizeUnits_inner_def stripSpaces_50qPa parseExpression_50qPa Let_def)

lemma not_success_rest: "wellFormed s out \<Longrightarrow> \<not> success out \<Longrightarrow> rest out = s"
  by (cases out) auto

text \<open>The inputs of the examples, rule by rule.\<close>

declare digitsOf.simps [simp del]

lemma prefix_k: "map_of prefixesTable (str ''k'') = Some 3"
  by (simp add: prefixesTable_def str_def micro_def)

lemma prefix_empty: "map_of prefixesTable [] = Some 0"
  by (simp add: prefixesTable_def str_def micro_def)

lemma derived_Pa:
  "map_of derivedUnits (str ''Pa'') =
     Some ([(str ''10'', 3), (str ''g'', 1), (str ''m'', - 1), (str ''s'', - 2)], None)"
  by (simp add: derivedUnits_def str_def ohm_def degreeC_def)

lemma derived_base:
  "map_of derivedUnits (str ''g'') = None"
  "map_of derivedUnits (str ''m'') = None"
  "map_of derivedUnits (str ''s'') = None"
  by (simp_all add: derivedUnits_def str_def ohm_def degreeC_def)

lemma matchList_kPa: "matchList (str ''kPa'') = [(str ''k'', str ''Pa'')]"
  by (simp add: tables)

lemma matchList_kg: "matchList (str ''kg'' @ 42 # t) = [(str ''k'', str ''g'')]"
  by (simp add: tables)

lemma matchList_m:
  "matchList (str ''m'') = [([], str ''m'')]"
  "matchList (str ''m'' @ 94 # t) = [([], str ''m'')]"
  "matchList (str ''m'' @ 47 # t) = [([], str ''m'')]"
  by (simp_all add: tables)

lemma matchList_s: "matchList (str ''s'' @ 94 # t) = [([], str ''s'')]"
  by (simp add: tables)

lemma matchList_null: "matchList (str ''null'' @ t) = []"
  by (simp add: tables)

lemmas evdefs = parseFactor_def parseBase_def parseExponent_def parseDigits_def isDigit_def
  parseInt_def digitsValue_def exact_def addExponents_def subExponents_def scaleExponents_def
  negateExponents_def Let_def fun_eq_iff

lemma parseBase_kPa:
  "parseBase (str ''kPa'') = Success (str ''kPa'') []
     \<lparr>exponents = [str ''10'' \<mapsto> Exact 6, str ''g'' \<mapsto> Exact 1, str ''m'' \<mapsto> Exact (- 1),
                    str ''s'' \<mapsto> Exact (- 2)],
      conversion = (\<lambda>m. m)\<rparr>"
  using matchList_kPa prefix_k derived_Pa by (auto simp: evdefs str_def)

lemma parseTerm_kPa:
  "parseTerm (str ''kPa'') = Success (str ''kPa'') []
     \<lparr>exponents = [str ''10'' \<mapsto> Exact 6, str ''g'' \<mapsto> Exact 1, str ''m'' \<mapsto> Exact (- 1),
                    str ''s'' \<mapsto> Exact (- 2)],
      conversion = (\<lambda>m. m)\<rparr>"
  using parseBase_kPa by (simp add: ev evdefs str_def)

lemma parseTerm_s2:
  "parseTerm (str ''s^-2'') = Success (str ''s^-2'') []
     \<lparr>exponents = [str ''10'' \<mapsto> Exact 0, str ''s'' \<mapsto> Exact (- 2)],
      conversion = (\<lambda>m. m)\<rparr>"
  using matchList_s [of "str ''-2''"] prefix_empty derived_base
  by (simp add: ev evdefs str_def)

lemma parseTerm_m1s2:
  "parseTerm (str ''m^-1*s^-2'') = Success (str ''m^-1*s^-2'') []
     \<lparr>exponents = [str ''10'' \<mapsto> Exact 0, str ''m'' \<mapsto> Exact (- 1), str ''s'' \<mapsto> Exact (- 2)],
      conversion = (\<lambda>m. m)\<rparr>"
  using matchList_m(2) [of "str ''-1*s^-2''"] prefix_empty derived_base parseTerm_s2
  by (simp add: ev evdefs str_def)

lemma parseTerm_kgm1s2:
  "parseTerm (str ''kg*m^-1*s^-2'') = Success (str ''kg*m^-1*s^-2'') []
     \<lparr>exponents = [str ''10'' \<mapsto> Exact 3, str ''g'' \<mapsto> Exact 1, str ''m'' \<mapsto> Exact (- 1),
                    str ''s'' \<mapsto> Exact (- 2)],
      conversion = (\<lambda>m. m)\<rparr>"
  using matchList_kg [of "str ''m^-1*s^-2''"] prefix_k derived_base parseTerm_m1s2
  by (simp add: ev evdefs str_def)

lemma parseTerm_m:
  "parseTerm (str ''m'') = Success (str ''m'') []
     \<lparr>exponents = [str ''10'' \<mapsto> Exact 0, str ''m'' \<mapsto> Exact 1], conversion = (\<lambda>m. m)\<rparr>"
  using matchList_m(1) prefix_empty derived_base by (simp add: ev evdefs str_def)

lemma parseTerm_m_m:
  "parseTerm (str ''m/m'') = Success (str ''m/m'') []
     \<lparr>exponents = [str ''10'' \<mapsto> Exact 0, str ''m'' \<mapsto> Exact 0], conversion = (\<lambda>m. m)\<rparr>"
  using matchList_m(3) [of "str ''m''"] prefix_empty derived_base parseTerm_m
  by (simp add: ev evdefs str_def)

lemma parseTerm_null: "parseTerm (str ''null'' @ t) = Failure [] (str ''null'' @ t)"
  using matchList_null [of t] by (simp add: ev evdefs str_def)

lemma parseMagnitude_50kPa:
  "parseMagnitude (str ''50kPa'') =
     Success (str ''50'') (str ''kPa'') \<lparr>significand = Exact 50, exponent = Exact 0\<rparr>"
  by (simp add: lexdefs ev)

lemma parseMagnitude_5e4:
  "parseMagnitude (str ''5*10^4kg*m^-1*s^-2'') =
     Success (str ''5*10^4'') (str ''kg*m^-1*s^-2'') \<lparr>significand = Exact 5, exponent = Exact 4\<rparr>"
  by (simp add: lexdefs ev)

lemma parseMagnitude_1mm:
  "parseMagnitude (str ''1m/m'') =
     Success (str ''1'') (str ''m/m'') \<lparr>significand = Exact 1, exponent = Exact 0\<rparr>"
  by (simp add: lexdefs ev)

lemma parseMagnitude_kPa: "parseMagnitude (str ''kPa'') = Failure [] (str ''kPa'')"
  by (simp add: lexdefs ev)

lemma parseMagnitude_null: "parseMagnitude (str ''null'' @ t) = Failure [] (str ''null'' @ t)"
  by (simp add: lexdefs ev)

lemmas exprdefs = parseExpression_def Let_def charAt0_def exact_def str_def fun_eq_iff

lemma parseExpression_50kPa:
  "parseExpression (str ''50kPa'') = Returns (Success (str ''50kPa'') []
     \<lparr>magnitude = Exact 50,
      expExponents = [str ''10'' \<mapsto> Exact 6, str ''g'' \<mapsto> Exact 1, str ''m'' \<mapsto> Exact (- 1),
                    str ''s'' \<mapsto> Exact (- 2)]\<rparr>)"
  using parseTerm_kPa parseMagnitude_50kPa by (simp add: exprdefs)

lemma parseExpression_5e4:
  "parseExpression (str ''5*10^4kg*m^-1*s^-2'') = Returns (Success (str ''5*10^4kg*m^-1*s^-2'') []
     \<lparr>magnitude = Exact 5,
      expExponents = [str ''10'' \<mapsto> Exact 7, str ''g'' \<mapsto> Exact 1, str ''m'' \<mapsto> Exact (- 1),
                    str ''s'' \<mapsto> Exact (- 2)]\<rparr>)"
  using parseTerm_kgm1s2 parseMagnitude_5e4 by (simp add: exprdefs)

lemma parseExpression_kPa:
  "parseExpression (str ''kPa'') = Returns (Success (str ''kPa'') []
     \<lparr>magnitude = NaN,
      expExponents = [str ''10'' \<mapsto> Exact 6, str ''g'' \<mapsto> Exact 1, str ''m'' \<mapsto> Exact (- 1),
                    str ''s'' \<mapsto> Exact (- 2)]\<rparr>)"
  using parseTerm_kPa parseMagnitude_kPa by (simp add: exprdefs)

lemma parseExpression_1mm:
  "parseExpression (str ''1m/m'') = Returns (Success (str ''1m/m'') []
     \<lparr>magnitude = Exact 1,
      expExponents = [str ''10'' \<mapsto> Exact 0, str ''m'' \<mapsto> Exact 0]\<rparr>)"
  using parseTerm_m_m parseMagnitude_1mm by (simp add: exprdefs)

lemma parseExpression_null:
  "parseExpression (str ''null'' @ t) = Returns (Failure [] (str ''null'' @ t))"
  using parseTerm_null [of t] parseMagnitude_null [of t] by (simp add: exprdefs)

lemmas normdefs = normalizeUnits_inner_def stripSpaces_def canonicalKeys_def renderMagnitude_def
  renderUnit_def intToString_def digitsOf.simps Let_def str_def

lemma normalizeUnits_inner_50kPa:
  "normalizeUnits_inner (str ''50 kPa'') = Returns (Success (str ''50kPa'') []
     \<lparr>magnitudeString = str ''50*10^6'', unitsString = str ''g*m^-1*s^-2''\<rparr>)"
  using parseExpression_50kPa by (simp add: normdefs)

lemma normalizeUnits_inner_5e4:
  "normalizeUnits_inner (str ''5*10^4 kg*m^-1*s^-2'') = Returns (Success (str ''5*10^4kg*m^-1*s^-2'') []
     \<lparr>magnitudeString = str ''5*10^7'', unitsString = str ''g*m^-1*s^-2''\<rparr>)"
  using parseExpression_5e4 by (simp add: normdefs)

lemma normalizeUnits_inner_kPa:
  "normalizeUnits_inner (str ''kPa'') = Returns (Success (str ''kPa'') []
     \<lparr>magnitudeString = str ''null*10^6'', unitsString = str ''g*m^-1*s^-2''\<rparr>)"
  using parseExpression_kPa by (simp add: normdefs)

lemma normalizeUnits_inner_1mm:
  "normalizeUnits_inner (str ''1 m/m'') = Returns (Success (str ''1m/m'') []
     \<lparr>magnitudeString = str ''1'', unitsString = str ''m^0''\<rparr>)"
  using parseExpression_1mm by (simp add: normdefs)

lemma normalizeUnits_inner_null:
  "normalizeUnits_inner (str ''null*10^6 g*m^-1*s^-2'')
     = Returns (Failure [] (str ''null*10^6 g*m^-1*s^-2''))"
  using parseExpression_null [of "str ''*10^6g*m^-1*s^-2''"] by (simp add: normdefs)

lemma normalizeUnits_50kPa:
  "normalizeUnits (str ''50 kPa'') = Returns (str ''50*10^6 g*m^-1*s^-2'')"
  using normalizeUnits_inner_50kPa by (simp add: normalizeUnits_def throttle_def str_def)

lemma normalizeUnits_5e4:
  "normalizeUnits (str ''5*10^4 kg*m^-1*s^-2'') = Returns (str ''5*10^7 g*m^-1*s^-2'')"
  using normalizeUnits_inner_5e4 by (simp add: normalizeUnits_def throttle_def str_def)

lemma normalizeUnits_kPa:
  "normalizeUnits (str ''kPa'') = Returns (str ''null*10^6 g*m^-1*s^-2'')"
  using normalizeUnits_inner_kPa by (simp add: normalizeUnits_def throttle_def str_def)

lemma normalizeUnits_1mm:
  "normalizeUnits (str ''1 m/m'') = Returns (str ''1 m^0'')"
  using normalizeUnits_inner_1mm by (simp add: normalizeUnits_def throttle_def str_def)

lemma normalizeUnits_null:
  "normalizeUnits (str ''null*10^6 g*m^-1*s^-2'')
     = Throws (Error (errorMessage [] (str ''null*10^6 g*m^-1*s^-2'')))"
  using normalizeUnits_inner_null by (simp add: normalizeUnits_def throttle_def)

lemma normalizeUnits_50qPa:
  "normalizeUnits (str ''50 qPa'')
     = Throws (Error (errorMessage (str ''50'') (str ''50 qPa'')))"
  using normalizeUnits_inner_50qPa by (simp add: normalizeUnits_def throttle_def)

text \<open>
  A term starts with a parenthesis, a prefix or a unit, never with an operator; the
  expression rule throws on the empty string only; \<^verbatim>\<open>_normalizeUnits\<close> never does.
\<close>

lemma matchList_operator:
  "matchList (42 # t) = []"
  "matchList (47 # t) = []"
  by (simp_all add: tables)

lemma parseTerm_Success_head:
  assumes "parseTerm s = Success c r x"
  shows "\<exists>a t. s = a # t \<and> a \<noteq> 42 \<and> a \<noteq> 47"
proof (cases s)
  case Nil
  with assms show ?thesis by (simp add: parseTerm_Nil)
next
  case (Cons a t)
  have "a \<noteq> 42"
  proof
    assume "a = 42"
    with assms Cons matchList_operator(1) [of t] show False
      by (simp add: parseTerm_Cons parseFactor_def parseBase_def)
  qed
  moreover have "a \<noteq> 47"
  proof
    assume "a = 47"
    with assms Cons matchList_operator(2) [of t] show False
      by (simp add: parseTerm_Cons parseFactor_def parseBase_def)
  qed
  ultimately show ?thesis using Cons by simp
qed

lemma parseExpression_bare_unit:
  assumes m: "parseMagnitude s = Failure [] r"
    and t: "parseTerm s = Success tc tr tres"
  shows "parseExpression s
    = Returns (Success tc tr \<lparr>magnitude = NaN, expExponents = exponents tres\<rparr>)"
proof -
  from t obtain a u where s: "s = a # u" "a \<noteq> 42" "a \<noteq> 47"
    by (auto dest: parseTerm_Success_head)
  from m wellFormed_parseMagnitude [of s] have r: "r = s" by simp
  from m t s r show ?thesis
    by (simp add: parseExpression_def Let_def charAt0_def str_def)
qed

lemma parseExpression_Throws:
  assumes "parseExpression s = Throws e"
  shows "s = [] \<and> e = TypeError"
proof -
  have "rest (parseMagnitude s) = s" if "\<not> success (parseMagnitude s)"
    using that wellFormed_parseMagnitude [of s] by (rule_tac not_success_rest)
  with assms show ?thesis
    by (auto simp: parseExpression_def Let_def split: if_splits outcome.splits)
qed

lemma parseExpression_Nil: "parseExpression [] = Throws TypeError"
  by (simp add: lexdefs ev)

lemma parseExpression_not_Undetermined: "parseExpression s \<noteq> Undetermined"
  by (auto simp: parseExpression_def Let_def split: if_splits outcome.splits)

lemma normalizeUnits_inner_not_Throws: "normalizeUnits_inner s \<noteq> Throws e"
  by (auto simp: normalizeUnits_inner_def Let_def dest: parseExpression_Throws
      split: if_splits completion.splits outcome.splits option.splits)

lemma normalizeUnits_Throws:
  assumes "normalizeUnits s = Throws e"
  shows "\<exists>c. normalizeUnits_inner s = Returns (Failure c s) \<and> e = Error (errorMessage c s)"
  using assms normalizeUnits_inner_not_Throws [of s] normalizeUnits_inner_Failure [of s]
  by (auto simp: normalizeUnits_def throttle_def split: completion.splits outcome.splits)

text \<open>Rendering succeeds where the numbers are determined.\<close>

lemma renderUnit_Some: "e k \<noteq> Some Inexact \<Longrightarrow> \<exists>r. renderUnit e k = Some r"
proof (cases "e k")
  case None
  then show ?thesis by (simp add: renderUnit_def)
next
  case (Some v)
  assume "e k \<noteq> Some Inexact"
  with Some show ?thesis by (cases v) (auto simp: renderUnit_def split: bool.splits)
qed

lemma those_renderUnit_Some:
  "list_all (\<lambda>k. e k \<noteq> Some Inexact) ks \<Longrightarrow> \<exists>rs. those (map (renderUnit e) ks) = Some rs"
proof (induction ks)
  case Nil
  then show ?case by simp
next
  case (Cons k ks)
  then obtain rs where "those (map (renderUnit e) ks) = Some rs" by auto
  moreover from Cons.prems obtain r where "renderUnit e k = Some r"
    by (auto dest: renderUnit_Some)
  ultimately show ?case by simp
qed

lemma renderMagnitude_NaN:
  "e (str ''10'') \<noteq> Some Inexact \<Longrightarrow> \<exists>t. renderMagnitude NaN e = Some (str ''null'' @ t)"
proof (cases "e (str ''10'')")
  case None
  then show ?thesis by (simp add: renderMagnitude_def)
next
  case (Some v)
  assume "e (str ''10'') \<noteq> Some Inexact"
  with Some show ?thesis by (cases v) (auto simp: renderMagnitude_def split: bool.splits)
qed

lemma list_all_filter: "list_all P xs \<Longrightarrow> list_all P (filter Q xs)"
  by (induction xs) auto

lemma stripSpaces_kPa: "stripSpaces (str ''kPa'') = str ''kPa''"
  by (simp add: stripSpaces_def str_def)

text \<open>The matcher's list holds exactly the candidates, the longest first.\<close>

lemma empty_prefix_in_table: "[] \<in> fst ` set prefixesTable"
  by (simp add: prefixesTable_def)

lemma mem_matchList:
  "(p, u) \<in> set (matchList s) \<longleftrightarrow>
     (p \<noteq> [] \<and> p \<in> fst ` set prefixesTable \<and> prefix p s \<and> u \<in> set units
        \<and> u \<notin> set prefixlessUnits \<and> prefix (p @ u) s)
     \<or> (p = [] \<and> u \<in> set units \<and> prefix u s)"
  unfolding matchList_def startsWith_def by (simp add: image_iff) blast

lemma set_matchList: "set (matchList s) = candidatePairs s"
proof -
  have "m \<in> set (matchList s) \<longleftrightarrow> m \<in> candidatePairs s" for m
  proof (cases m)
    case (Pair p u)
    have "prefix p s" if "prefix (p @ u) s"
      using that by (rule append_prefixD)
    then show ?thesis
      unfolding Pair mem_matchList candidatePairs_def
      using empty_prefix_in_table by (cases "p = []") auto
  qed
  then show ?thesis by blast
qed

lemma sort_key_head_least:
  assumes "sort_key f xs = y # ys" and "z \<in> set xs"
  shows "f y \<le> f z"
proof -
  have "sorted (map f (sort_key f xs))" by (rule sorted_sort_key)
  with assms(1) have "\<forall>w \<in> set ys. f y \<le> f w" by simp
  moreover from assms have "z \<in> set (y # ys)" by (metis set_sort)
  ultimately show ?thesis by auto
qed

lemma matchList_head_longest:
  assumes "matchList s = (p, u) # ms" and "(p', u') \<in> candidatePairs s"
  shows "length p' + length u' \<le> length p + length u"
proof -
  let ?f = "\<lambda>m :: jsstring \<times> jsstring. - int (length (fst m) + length (snd m))"
  obtain xs where xs: "matchList s = sort_key ?f xs"
    by (simp add: matchList_def)
  with assms(2) have "(p', u') \<in> set xs" using set_matchList [of s] by simp
  with assms(1) xs have "?f (p, u) \<le> ?f (p', u')"
    by (intro sort_key_head_least [of ?f xs "(p, u)" ms]) simp_all
  then show ?thesis by simp
qed

lemma matchList_mol: "matchList (str ''mol'' @ t) = [([], str ''mol''), ([], str ''m'')]"
  by (simp add: tables)

lemma matchList_prefixless:
  "(p, u) \<in> set (matchList s) \<Longrightarrow> u \<in> set prefixlessUnits \<Longrightarrow> p = []"
  by (auto simp: set_matchList candidatePairs_def)

section \<open>The numbers a parse produces\<close>

text \<open>
  No exponent of a parse is \<open>NaN\<close>, every exact number lies within \<open>2^53\<close>, and
  every exponent vector has the key 10. The conversion of a term keeps a magnitude
  within the range.
\<close>

definition inRange :: "jsnum \<Rightarrow> bool" where
  "inRange v = (case v of Exact n \<Rightarrow> \<bar>n\<bar> \<le> 9007199254740992 | NaN \<Rightarrow> True | Inexact \<Rightarrow> True)"

definition okNum :: "jsnum \<Rightarrow> bool" where
  "okNum v = (v \<noteq> NaN \<and> inRange v)"

definition okVec :: "expvec \<Rightarrow> bool" where
  "okVec e = (e (str ''10'') \<noteq> None \<and> (\<forall>k v. e k = Some v \<longrightarrow> okNum v))"

definition okConv :: "(jsnum \<Rightarrow> jsnum) \<Rightarrow> bool" where
  "okConv f = (\<forall>v. inRange v \<longrightarrow> inRange (f v))"

lemma inRange_simps [simp]:
  "inRange (Exact n) = (\<bar>n\<bar> \<le> 9007199254740992)" "inRange NaN" "inRange Inexact"
  by (simp_all add: inRange_def)

lemma inRange_exact [simp]: "inRange (exact z)"
  by (simp add: exact_def)

lemma exact_not_NaN [simp]: "exact z \<noteq> NaN"
  by (simp add: exact_def)

lemma okNum_exact [simp]: "okNum (exact z)"
  by (simp add: okNum_def)

lemma okNum_small [simp]: "okNum (Exact 0)" "okNum (Exact 1)"
  by (simp_all add: okNum_def)

lemma inRange_jsNeg [simp]: "inRange (jsNeg v) = inRange v"
  by (cases v) simp_all

lemma okNum_jsNeg [simp]: "okNum (jsNeg v) = okNum v"
  by (cases v) (simp_all add: okNum_def)

lemma okNum_jsAdd: "a \<noteq> NaN \<Longrightarrow> b \<noteq> NaN \<Longrightarrow> okNum (jsAdd a b)"
  by (cases a; cases b) (simp_all add: okNum_def)

lemma okNum_jsSub: "a \<noteq> NaN \<Longrightarrow> b \<noteq> NaN \<Longrightarrow> okNum (jsSub a b)"
  by (cases a; cases b) (simp_all add: okNum_def)

lemma okNum_jsMul: "a \<noteq> NaN \<Longrightarrow> b \<noteq> NaN \<Longrightarrow> okNum (jsMul a b)"
  by (cases a; cases b) (simp_all add: okNum_def)

lemma orZero_not_NaN [simp]: "orZero x \<noteq> NaN"
  by (cases x rule: orZero.cases) simp_all

lemma okNum_not_NaN: "okNum v \<Longrightarrow> v \<noteq> NaN"
  by (simp add: okNum_def)

lemma okVec_lookup: "okVec e \<Longrightarrow> e k = Some v \<Longrightarrow> okNum v"
  by (auto simp: okVec_def)

lemma okVec_ten: "okVec e \<Longrightarrow> \<exists>v. e (str ''10'') = Some v \<and> okNum v"
  by (auto simp: okVec_def)

lemma okVec_addExponents:
  assumes "okVec a" "okVec b"
  shows "okVec (addExponents a b)"
proof -
  have "okNum v" if "addExponents a b k = Some v" for k v
  proof (cases "b k")
    case None
    with that assms(1) show ?thesis by (auto simp: addExponents_def dest: okVec_lookup)
  next
    case (Some x)
    with assms(2) have "x \<noteq> NaN" by (auto dest: okVec_lookup okNum_not_NaN)
    with that Some show ?thesis by (auto simp: addExponents_def intro: okNum_jsAdd)
  qed
  moreover from assms have "addExponents a b (str ''10'') \<noteq> None"
    by (auto simp: okVec_def addExponents_def split: option.splits)
  ultimately show ?thesis by (auto simp: okVec_def)
qed

lemma okVec_subExponents:
  assumes "okVec a" "okVec b"
  shows "okVec (subExponents a b)"
proof -
  have "okNum v" if "subExponents a b k = Some v" for k v
  proof (cases "b k")
    case None
    with that assms(1) show ?thesis by (auto simp: subExponents_def dest: okVec_lookup)
  next
    case (Some x)
    with assms(2) have "x \<noteq> NaN" by (auto dest: okVec_lookup okNum_not_NaN)
    with that Some show ?thesis by (auto simp: subExponents_def intro: okNum_jsSub)
  qed
  moreover from assms have "subExponents a b (str ''10'') \<noteq> None"
    by (auto simp: okVec_def subExponents_def split: option.splits)
  ultimately show ?thesis by (auto simp: okVec_def)
qed

lemma okVec_scaleExponents:
  assumes "okVec a" "okNum x"
  shows "okVec (scaleExponents a x)"
proof -
  have "okNum v" if "scaleExponents a x k = Some v" for k v
  proof -
    from that obtain z where z: "a k = Some z" "v = jsMul z x"
      by (auto simp: scaleExponents_def)
    with assms have "z \<noteq> NaN" "x \<noteq> NaN" by (auto dest: okVec_lookup okNum_not_NaN)
    with z show ?thesis by (auto intro: okNum_jsMul)
  qed
  moreover from assms have "scaleExponents a x (str ''10'') \<noteq> None"
    by (auto simp: okVec_def scaleExponents_def)
  ultimately show ?thesis by (auto simp: okVec_def)
qed

lemma okVec_negateExponents: "okVec a \<Longrightarrow> okVec (negateExponents a)"
  by (auto simp: okVec_def negateExponents_def)

lemma okNum_parseInt: "s \<noteq> [] \<Longrightarrow> list_all isDigit s \<Longrightarrow> okNum (parseInt s)"
  by (simp add: parseInt_def)

lemma inRange_parseInt [simp]: "inRange (parseInt s)"
  by (simp add: parseInt_def)

lemma inRange_parseFloat [simp]: "inRange (parseFloat s)"
  by (simp add: parseFloat_def Let_def)

lemma parseDigits_Success:
  assumes "parseDigits s = Success c r x"
  shows "c = takeWhile isDigit s \<and> r = dropWhile isDigit s \<and> c \<noteq> [] \<and> x = parseInt c"
proof -
  have "take (length (takeWhile isDigit s)) s = takeWhile isDigit s"
    by (metis append_eq_conv_conj takeWhile_dropWhile_id)
  moreover have "drop (length (takeWhile isDigit s)) s = dropWhile isDigit s"
    by (metis append_eq_conv_conj takeWhile_dropWhile_id)
  ultimately show ?thesis
    using assms by (auto simp: parseDigits_def Let_def split: if_splits)
qed

lemma okNum_parseDigits: "parseDigits s = Success c r x \<Longrightarrow> okNum x"
proof -
  assume a: "parseDigits s = Success c r x"
  then have c: "c = takeWhile isDigit s" "c \<noteq> []" "x = parseInt c"
    by (auto dest: parseDigits_Success)
  have "list_all isDigit (takeWhile isDigit s)"
    by (simp add: list_all_iff) (metis set_takeWhileD)
  with c show ?thesis by (simp add: okNum_parseInt)
qed

lemma okNum_parseInteger: "parseInteger s = Success c r x \<Longrightarrow> okNum x"
proof (induction s arbitrary: c r x rule: parseInteger.induct)
  case (1 string)
  show ?case
  proof (cases "parseChar string (str ''+'')")
    case p: (Success pc pr u)
    from "1.IH" p have "\<And>c r x. parseInteger pr = Success c r x \<Longrightarrow> okNum x" by blast
    with p "1.prems" show ?thesis
      by (subst (asm) parseInteger.simps) (auto split: outcome.splits)
  next
    case p: (Failure pc pr)
    show ?thesis
    proof (cases "parseChar string (str ''-'')")
      case m: (Success mc mr u)
      from "1.IH" p m have "\<And>c r x. parseInteger mr = Success c r x \<Longrightarrow> okNum x" by blast
      with p m "1.prems" show ?thesis
        by (subst (asm) parseInteger.simps) (auto split: outcome.splits)
    next
      case m: (Failure mc mr)
      with p "1.prems" show ?thesis
        by (subst (asm) parseInteger.simps) (auto split: outcome.splits dest: okNum_parseDigits)
    qed
  qed
qed

lemma inRange_parseDecimal: "parseDecimal s = Success c r x \<Longrightarrow> inRange x"
proof (induction s arbitrary: c r x rule: parseDecimal.induct)
  case (1 string)
  show ?case
  proof (cases "parseChar string (str ''+'')")
    case p: (Success pc pr u)
    from "1.IH" p have "\<And>c r x. parseDecimal pr = Success c r x \<Longrightarrow> inRange x" by blast
    with p "1.prems" show ?thesis
      by (subst (asm) parseDecimal.simps) (auto split: outcome.splits)
  next
    case p: (Failure pc pr)
    show ?thesis
    proof (cases "parseChar string (str ''-'')")
      case m: (Success mc mr u)
      from "1.IH" p m have "\<And>c r x. parseDecimal mr = Success c r x \<Longrightarrow> inRange x" by blast
      with p m "1.prems" show ?thesis
        by (subst (asm) parseDecimal.simps) (auto split: outcome.splits)
    next
      case m: (Failure mc mr)
      with p "1.prems" show ?thesis
        by (subst (asm) parseDecimal.simps)
          (auto simp: Let_def okNum_def split: outcome.splits dest!: okNum_parseDigits)
    qed
  qed
qed

lemma prefixesTable_bound: "map_of prefixesTable p = Some n \<Longrightarrow> \<bar>n\<bar> \<le> 24"
  by (auto simp: prefixesTable_def split: if_splits)

lemma prefixesTable_defined:
  "p \<in> fst ` set prefixesTable \<Longrightarrow> \<exists>n. map_of prefixesTable p = Some n"
  by (auto dest: weak_map_of_SomeI)

lemma derived_conversion:
  "map_of derivedUnits u = Some (ue, Some f) \<Longrightarrow> f = celsiusConversion"
  by (auto simp: derivedUnits_def split: if_splits)

lemma okConv_id [simp]: "okConv (\<lambda>m. m)"
  by (simp add: okConv_def)

lemma okConv_celsius [simp]: "okConv celsiusConversion"
  by (auto simp: okConv_def celsiusConversion_def split: jsnum.splits)

lemma okConv_comp: "okConv f \<Longrightarrow> okConv g \<Longrightarrow> okConv (\<lambda>m. f (g m))"
  by (simp add: okConv_def)

lemma okVec_base: "\<bar>n\<bar> \<le> 24 \<Longrightarrow> okVec [str ''10'' \<mapsto> Exact n]"
  by (auto simp: okVec_def okNum_def)

lemma okVec_derived:
  assumes "\<bar>n\<bar> \<le> 24"
  shows "okVec (addExponents [str ''10'' \<mapsto> Exact n] (map_option Exact \<circ> map_of ue))"
proof -
  let ?e = "addExponents [str ''10'' \<mapsto> Exact n] (map_option Exact \<circ> map_of ue)"
  have "okNum v" if "?e k = Some v" for k v
  proof (cases "map_of ue k")
    case None
    with that assms show ?thesis
      by (auto simp: addExponents_def okNum_def split: if_splits)
  next
    case (Some x)
    with that show ?thesis by (auto simp: addExponents_def intro: okNum_jsAdd)
  qed
  moreover have "?e (str ''10'') \<noteq> None"
    by (auto simp: addExponents_def split: option.splits)
  ultimately show ?thesis by (auto simp: okVec_def)
qed

lemma ok_parseBase:
  assumes "parseBase s = Success c r res"
  shows "okVec (exponents res) \<and> okConv (conversion res)"
proof (cases "matchList s")
  case Nil
  with assms show ?thesis by (simp add: parseBase_def)
next
  case (Cons m ms)
  obtain p u where m: "m = (p, u)" by (cases m)
  with Cons have "(p, u) \<in> candidatePairs s" using set_matchList [of s] by auto
  then have "p \<in> fst ` set prefixesTable" by (simp add: candidatePairs_def)
  then obtain n where n: "map_of prefixesTable p = Some n"
    using prefixesTable_defined by blast
  then have b: "\<bar>n\<bar> \<le> 24" by (rule prefixesTable_bound)
  show ?thesis
  proof (cases "map_of derivedUnits u")
    case None
    with assms Cons m n b show ?thesis
      by (auto simp: parseBase_def Let_def okVec_def okNum_def split: if_splits)
  next
    case (Some d)
    obtain ue cv where d: "d = (ue, cv)" by (cases d)
    have "okConv (case cv of Some f \<Rightarrow> f | None \<Rightarrow> (\<lambda>m. m))"
      using Some d by (cases cv) (auto dest: derived_conversion)
    with assms Cons m n Some d okVec_derived [OF b, of ue] show ?thesis
      by (auto simp: parseBase_def Let_def)
  qed
qed

lemma ok_parseFactor:
  assumes "parseFactor s = Success c r res"
  shows "okVec (exponents res) \<and> okConv (conversion res)"
proof (cases "parseBase s")
  case (Failure bc br)
  with assms show ?thesis by (simp add: parseFactor_def)
next
  case b: (Success bc br bres)
  then have ok: "okVec (exponents bres)" "okConv (conversion bres)"
    by (auto dest: ok_parseBase)
  show ?thesis
  proof (cases "parseChar br (str ''^'')")
    case (Failure cc cr)
    with assms b ok show ?thesis by (auto simp: parseFactor_def)
  next
    case c: (Success cc cr u)
    show ?thesis
    proof (cases "parseInteger cr")
      case (Failure ec er)
      with assms b c show ?thesis by (simp add: parseFactor_def parseExponent_def)
    next
      case (Success ec er x)
      then have "okNum x" by (rule okNum_parseInteger)
      with assms b c ok Success show ?thesis
        by (auto simp: parseFactor_def parseExponent_def intro: okVec_scaleExponents)
    qed
  qed
qed

lemma ok_parseTerm_all:
  "parseTerm s = Success c r res \<Longrightarrow> okVec (exponents res) \<and> okConv (conversion res)"
  "parseAsterixTerm s1 = Success c1 r1 res1 \<Longrightarrow>
     okVec (exponents res1) \<and> okConv (conversion res1)"
  "parseSlashTerm s2 = Success c2 r2 res2 \<Longrightarrow>
     okVec (exponents res2) \<and> okConv (conversion res2)"
  "parseCharTerm s3 ch = Success c3 r3 res3 \<Longrightarrow>
     okVec (exponents res3) \<and> okConv (conversion res3)"
proof (induction s and s1 and s2 and s3 ch arbitrary: c r res and c1 r1 res1 and c2 r2 res2
    and c3 r3 res3 rule: parseTerm_parseAsterixTerm_parseSlashTerm_parseCharTerm.induct)
  case (1 string)
  show ?case
  proof (cases "parseChar string (str ''('')")
    case op: (Success oc orest u)
    have ih: "\<And>c r res. parseTerm orest = Success c r res \<Longrightarrow>
        okVec (exponents res) \<and> okConv (conversion res)" by (rule "1.IH"(3) [OF op])
    from "1.prems" op show ?thesis
      by (subst (asm) parseTerm.simps) (auto split: outcome.splits dest: ih)
  next
    case op: (Failure oc orest)
    show ?thesis
    proof (cases "parseFactor string")
      case (Failure fc fr)
      with "1.prems" op show ?thesis by (subst (asm) parseTerm.simps) auto
    next
      case f: (Success fc fr fres)
      then have okf: "okVec (exponents fres)" "okConv (conversion fres)"
        by (auto dest: ok_parseFactor)
      have iha: "\<And>c r res. parseAsterixTerm fr = Success c r res \<Longrightarrow>
        okVec (exponents res) \<and> okConv (conversion res)" by (rule "1.IH"(1) [OF op f])
      show ?thesis
      proof (cases "parseAsterixTerm fr")
        case a: (Success ac ar ares)
        with iha have "okVec (exponents ares)" "okConv (conversion ares)" by auto
        with "1.prems" op f a okf show ?thesis
          by (subst (asm) parseTerm.simps)
            (auto intro: okVec_addExponents okConv_comp)
      next
        case a: (Failure ac ar)
        have ihs: "\<And>c r res. parseSlashTerm fr = Success c r res \<Longrightarrow>
          okVec (exponents res) \<and> okConv (conversion res)" by (rule "1.IH"(2) [OF op f a])
        show ?thesis
        proof (cases "parseSlashTerm fr")
          case sl: (Success sc sr sres)
          with ihs have "okVec (exponents sres)" "okConv (conversion sres)" by auto
          with "1.prems" op f a sl okf show ?thesis
            by (subst (asm) parseTerm.simps)
              (auto intro: okVec_subExponents okConv_comp)
        next
          case sl: (Failure sc sr)
          with "1.prems" op f a okf show ?thesis
            by (subst (asm) parseTerm.simps) auto
        qed
      qed
    qed
  qed
next
  case (2 string)
  then show ?case by simp
next
  case (3 string)
  then show ?case by simp
next
  case (4 string char)
  show ?case
  proof (cases "parseChar string char")
    case (Failure cc cr)
    with "4.prems" show ?thesis by (subst (asm) parseCharTerm.simps) auto
  next
    case cs: (Success cc cr u)
    have ih: "\<And>c r res. parseTerm cr = Success c r res \<Longrightarrow>
        okVec (exponents res) \<and> okConv (conversion res)" by (rule "4.IH" [OF cs])
    from "4.prems" cs show ?thesis
      by (subst (asm) parseCharTerm.simps) (auto split: outcome.splits dest: ih)
  qed
qed

lemma ok_parseMagnitude:
  assumes "parseMagnitude s = Success c r res"
  shows "inRange (significand res) \<and> okNum (exponent res)"
  using assms
  by (auto simp: parseMagnitude_def parseSignificand_def parseExponent_def Let_def
      split: outcome.splits if_splits dest: inRange_parseDecimal okNum_parseInteger)

lemma parseExpression_magnitude_only:
  "parseMagnitude s = Success mc [] mres \<Longrightarrow>
     parseExpression s = Returns (Success mc []
       \<lparr>magnitude = significand mres, expExponents = [str ''10'' \<mapsto> exponent mres]\<rparr>)"
  by (simp add: parseExpression_def Let_def)

lemma parseExpression_magnitude_term:
  assumes "parseMagnitude s = Success mc (a # t) mres"
  shows "parseExpression s =
     (case parseTerm (if a = 42 \<or> a = 47 then t else a # t) of
        Success tc tr tres \<Rightarrow>
          Returns (Success (mc @ (if a = 42 \<or> a = 47 then [a] else []) @ tc) tr
            \<lparr>magnitude = conversion tres (significand mres),
             expExponents =
               (if a = 47 then negateExponents (exponents tres) else exponents tres)
                 (str ''10'' \<mapsto>
                    plusAssign
                      ((if a = 47 then negateExponents (exponents tres) else exponents tres)
                         (str ''10''))
                      (exponent mres))\<rparr>)
      | Failure tc tr \<Rightarrow>
          Returns (Failure (mc @ (if a = 42 \<or> a = 47 then [a] else []) @ tc) s))"
  using assms
  by (auto simp: parseExpression_def Let_def charAt0_def str_def split: outcome.splits)

lemma parseExpression_term_only:
  assumes "parseMagnitude (a # t) = Failure [] r"
  shows "parseExpression (a # t) =
     (case parseTerm (if a = 42 \<or> a = 47 then t else a # t) of
        Success tc tr tres \<Rightarrow>
          Returns (Success ((if a = 42 \<or> a = 47 then [a] else []) @ tc) tr
            \<lparr>magnitude = NaN,
             expExponents =
               (if a = 47 then negateExponents (exponents tres) else exponents tres)\<rparr>)
      | Failure tc tr \<Rightarrow>
          Returns (Failure ((if a = 42 \<or> a = 47 then [a] else []) @ tc) (a # t)))"
proof -
  from assms wellFormed_parseMagnitude [of "a # t"] have "r = a # t" by simp
  with assms show ?thesis
    by (auto simp: parseExpression_def Let_def charAt0_def str_def split: outcome.splits)
qed

lemma parseExpression_magnitude_failed:
  "parseMagnitude s = Failure mc r \<Longrightarrow> mc \<noteq> [] \<Longrightarrow>
     parseExpression s = Returns (Failure mc s)"
  by (simp add: parseExpression_def Let_def)

lemma ok_parseExpression:
  assumes "parseExpression s = Returns (Success c r res)"
  shows "okVec (expExponents res) \<and> inRange (magnitude res)"
proof (cases "parseMagnitude s")
  case m: (Success mc mr mres)
  then have okm: "inRange (significand mres)" "okNum (exponent mres)"
    by (auto dest: ok_parseMagnitude)
  show ?thesis
  proof (cases mr)
    case Nil
    with assms m okm show ?thesis
      by (auto simp: parseExpression_magnitude_only okVec_def split: if_splits)
  next
    case (Cons a t)
    let ?rest = "if a = 42 \<or> a = 47 then t else a # t"
    from assms m Cons obtain tc tr tres where t: "parseTerm ?rest = Success tc tr tres"
      by (auto simp: parseExpression_magnitude_term split: outcome.splits)
    then have okt: "okVec (exponents tres)" "okConv (conversion tres)"
      by (auto dest: ok_parseTerm_all(1))
    let ?e = "if a = 47 then negateExponents (exponents tres) else exponents tres"
    have oke: "okVec ?e" using okt by (simp add: okVec_negateExponents)
    then obtain v where v: "?e (str ''10'') = Some v" "okNum v" by (auto dest: okVec_ten)
    with okm have "okNum (plusAssign (?e (str ''10'')) (exponent mres))"
      by (auto intro: okNum_jsAdd dest: okNum_not_NaN)
    with oke have "okVec (?e(str ''10'' \<mapsto> plusAssign (?e (str ''10'')) (exponent mres)))"
      by (auto simp: okVec_def)
    moreover have "inRange (conversion tres (significand mres))"
      using okt okm by (simp add: okConv_def)
    moreover have "res = \<lparr>magnitude = conversion tres (significand mres),
        expExponents = ?e(str ''10'' \<mapsto> plusAssign (?e (str ''10'')) (exponent mres))\<rparr>"
      using assms m Cons t by (simp add: parseExpression_magnitude_term)
    ultimately show ?thesis by simp
  qed
next
  case m: (Failure mc mr)
  show ?thesis
  proof (cases s)
    case Nil
    with assms show ?thesis by (simp add: parseExpression_Nil)
  next
    case (Cons a t)
    show ?thesis
    proof (cases "mc = []")
      case False
      with assms m show ?thesis by (simp add: parseExpression_magnitude_failed)
    next
      case True
      let ?rest = "if a = 42 \<or> a = 47 then t else a # t"
      from assms m Cons True obtain tc tr tres where t: "parseTerm ?rest = Success tc tr tres"
        by (auto simp: parseExpression_term_only split: outcome.splits)
      then have okt: "okVec (exponents tres)" by (auto dest: ok_parseTerm_all(1))
      let ?e = "if a = 47 then negateExponents (exponents tres) else exponents tres"
      have oke: "okVec ?e" using okt by (simp add: okVec_negateExponents)
      moreover have "res = \<lparr>magnitude = NaN, expExponents = ?e\<rparr>"
        using assms m Cons True t by (simp add: parseExpression_term_only)
      ultimately show ?thesis by simp
    qed
  qed
qed

text \<open>The rendered units of a determined vector.\<close>

lemma filter_commute: "filter Q (filter P xs) = filter P (filter Q xs)"
  by (induction xs) auto

lemma unitKeys_canonical: "filter (\<lambda>unit. unit \<noteq> str ''10'') canonicalKeys = unitKeys"
  by (simp add: canonicalKeys_def unitKeys_def str_def)

lemma present_unitKeys:
  "filter (\<lambda>unit. unit \<noteq> str ''10'') (filter P canonicalKeys) = filter P unitKeys"
proof -
  have "filter P unitKeys = filter P (filter (\<lambda>unit. unit \<noteq> str ''10'') canonicalKeys)"
    by (simp only: unitKeys_canonical)
  also have "\<dots> = filter (\<lambda>unit. unit \<noteq> str ''10'') (filter P canonicalKeys)"
    by (rule filter_commute)
  finally show ?thesis by (rule sym)
qed

lemma renderUnit_Exact:
  "e k = Some (Exact n) \<Longrightarrow> renderUnit e k = Some (unitText k n)"
  by (simp add: renderUnit_def unitText_def)

lemma renderUnit_Some_Exact:
  assumes "renderUnit e k = Some r" and "e k = Some v" and "v \<noteq> NaN"
  shows "\<exists>n. v = Exact n"
  using assms by (cases v) (auto simp: renderUnit_def)

lemma those_renderUnit:
  assumes "those (map (renderUnit e) ks) = Some rs"
    and "\<forall>k \<in> set ks. \<exists>v. e k = Some v \<and> v \<noteq> NaN"
  shows "\<exists>ns. map e ks = map (\<lambda>n. Some (Exact n)) ns \<and> rs = map2 unitText ks ns"
  using assms
proof (induction ks arbitrary: rs)
  case Nil
  then show ?case by simp
next
  case (Cons k ks)
  from Cons.prems(1) obtain r rs' where r: "renderUnit e k = Some r"
    "those (map (renderUnit e) ks) = Some rs'" "rs = r # rs'"
    by (auto split: option.splits)
  from Cons.prems(2) obtain v where v: "e k = Some v" "v \<noteq> NaN" by auto
  with r(1) obtain n where n: "v = Exact n" by (auto dest: renderUnit_Some_Exact)
  with v r(1) have rn: "r = unitText k n" by (simp add: renderUnit_Exact)
  from Cons.IH [OF r(2)] Cons.prems(2) obtain ns where
    "map e ks = map (\<lambda>n. Some (Exact n)) ns" "rs' = map2 unitText ks ns" by auto
  with v n rn r(3) have "map e (k # ks) = map (\<lambda>n. Some (Exact n)) (n # ns)
      \<and> rs = map2 unitText (k # ks) (n # ns)" by simp
  then show ?case by blast
qed

section \<open>The canonical form parses back\<close>

text \<open>
  The decimal digits of an integer within \<open>2^53\<close> parse back to it; a canonical key
  followed by an exponent or a product is matched as itself; a printed product of
  units parses to the vector it was printed from; and the whole canonical string
  normalizes to itself.
\<close>

lemma digitsValue_snoc: "digitsValue (ds @ [d]) = 10 * digitsValue ds + (d - 48)"
  by (simp add: digitsValue_def)

lemma digitsOf_digits: "list_all isDigit (digitsOf n)"
proof (induction n rule: digitsOf.induct)
  case (1 n)
  show ?case
  proof (cases "n < 10")
    case True
    then show ?thesis by (subst digitsOf.simps) (simp add: isDigit_def)
  next
    case False
    have "n mod 10 < 10" by simp
    then have "isDigit (48 + n mod 10)" by (simp add: isDigit_def)
    with False "1.IH" show ?thesis by (subst digitsOf.simps) simp
  qed
qed

lemma digitsOf_nonempty: "digitsOf n \<noteq> []"
  by (subst digitsOf.simps) simp

lemma digitsValue_digitsOf: "digitsValue (digitsOf n) = n"
proof (induction n rule: digitsOf.induct)
  case (1 n)
  show ?case
  proof (cases "n < 10")
    case True
    then show ?thesis by (subst digitsOf.simps) (simp add: digitsValue_def)
  next
    case False
    with "1.IH" show ?thesis
      by (subst digitsOf.simps) (simp add: digitsValue_snoc)
  qed
qed

lemma parseInt_digitsOf: "parseInt (digitsOf n) = exact (int n)"
  by (simp add: parseInt_def digitsOf_nonempty digitsOf_digits digitsValue_digitsOf)

lemma takeWhile_digits:
  assumes "list_all isDigit ds" "noDigitAhead t"
  shows "takeWhile isDigit (ds @ t) = ds"
proof -
  from assms(2) have "takeWhile isDigit t = []"
    by (cases t) (simp_all add: noDigitAhead_def)
  with assms(1) show ?thesis by (simp add: list_all_iff)
qed

lemma parseDigits_digitsOf:
  assumes "noDigitAhead t"
  shows "parseDigits (digitsOf n @ t) = Success (digitsOf n) t (exact (int n))"
  using takeWhile_digits [OF digitsOf_digits assms, of n] digitsOf_nonempty [of n]
  by (simp add: parseDigits_def Let_def parseInt_digitsOf)

lemma digitsOf_head: "\<exists>d ds. digitsOf n = d # ds \<and> isDigit d"
  using digitsOf_digits [of n] digitsOf_nonempty [of n] by (cases "digitsOf n") auto

lemma parseInteger_digitsOf:
  assumes "noDigitAhead t"
  shows "parseInteger (digitsOf n @ t) = Success (digitsOf n) t (exact (int n))"
proof -
  obtain d ds where d: "digitsOf n = d # ds" "isDigit d" using digitsOf_head by blast
  then have "d \<noteq> 43" "d \<noteq> 45" by (auto simp: isDigit_def)
  with d(1) parseDigits_digitsOf [OF assms, of n] show ?thesis
    by (simp add: parseInteger_Cons)
qed

lemma parseInteger_intToString:
  assumes "noDigitAhead t" and "\<bar>i\<bar> \<le> 9007199254740992"
  shows "parseInteger (intToString i @ t) = Success (intToString i) t (Exact i)"
proof (cases "i < 0")
  case True
  with assms(2) have "exact (int (nat (- i))) = Exact (- i)" by (simp add: exact_def)
  with True parseInteger_digitsOf [OF assms(1), of "nat (- i)"] show ?thesis
    by (simp add: intToString_def str_def parseInteger_Cons)
next
  case False
  with assms(2) have "exact (int (nat i)) = Exact i" by (simp add: exact_def)
  with False parseInteger_digitsOf [OF assms(1), of "nat i"] show ?thesis
    by (simp add: intToString_def)
qed

lemma noNumberAhead_noDigit: "noNumberAhead t \<Longrightarrow> noDigitAhead t"
  by (cases t) (simp_all add: noNumberAhead_def noDigitAhead_def)

lemma parseDotDigits_fails: "noNumberAhead t \<Longrightarrow> parseDotDigits t = Failure [] t"
  by (cases t) (simp_all add: noNumberAhead_def parseDotDigits_def parseChar_Nil parseChar_Cons str_def)

lemma parseDecimal_digitsOf:
  assumes "noNumberAhead t"
  shows "parseDecimal (digitsOf n @ t) = Success (digitsOf n) t (exact (int n))"
proof -
  obtain d ds where d: "digitsOf n = d # ds" "isDigit d" using digitsOf_head by blast
  then have "d \<noteq> 43" "d \<noteq> 45" by (auto simp: isDigit_def)
  with d(1) parseDigits_digitsOf [OF noNumberAhead_noDigit [OF assms], of n]
    parseDotDigits_fails [OF assms]
  show ?thesis by (simp add: parseDecimal_Cons Let_def)
qed

lemma parseDecimal_intToString:
  assumes "noNumberAhead t" and "\<bar>i\<bar> \<le> 9007199254740992"
  shows "parseDecimal (intToString i @ t) = Success (intToString i) t (Exact i)"
proof (cases "i < 0")
  case True
  with assms(2) have "exact (int (nat (- i))) = Exact (- i)" by (simp add: exact_def)
  with True parseDecimal_digitsOf [OF assms(1), of "nat (- i)"] show ?thesis
    by (simp add: intToString_def str_def parseDecimal_Cons)
next
  case False
  with assms(2) have "exact (int (nat i)) = Exact i" by (simp add: exact_def)
  with False parseDecimal_digitsOf [OF assms(1), of "nat i"] show ?thesis
    by (simp add: intToString_def)
qed

lemma intToString_nonempty: "intToString i \<noteq> []"
  by (simp add: intToString_def digitsOf_nonempty)

lemma intToString_chars: "c \<in> set (intToString i) \<Longrightarrow> isDigit c \<or> c = 45"
  using digitsOf_digits by (auto simp: intToString_def str_def list_all_iff split: if_splits)

lemma intToString_head: "\<exists>c cs. intToString i = c # cs \<and> (isDigit c \<or> c = 45)"
  using intToString_nonempty [of i] intToString_chars [of _ i]
  by (cases "intToString i") auto

lemma matchList_key_end:
  "matchList (str ''g'') = [([], str ''g'')]"
  "matchList (str ''m'') = [([], str ''m'')]"
  "matchList (str ''s'') = [([], str ''s'')]"
  "matchList (str ''A'') = [([], str ''A'')]"
  "matchList (str ''K'') = [([], str ''K'')]"
  "matchList (str ''cd'') = [([], str ''cd'')]"
  "matchList (str ''mol'') = [([], str ''mol''), ([], str ''m'')]"
  "matchList (str ''%'') = [([], str ''%'')]"
  "matchList (str ''ppm'') = [([], str ''ppm'')]"
  "matchList (str ''ppb'') = [([], str ''ppb'')]"
  "matchList (str ''ppt'') = [([], str ''ppt'')]"
  "matchList (str ''ppq'') = [([], str ''ppq'')]"
  by (simp_all add: tables)

lemma matchList_key_caret:
  "matchList (str ''g'' @ 94 # t) = [([], str ''g'')]"
  "matchList (str ''m'' @ 94 # t) = [([], str ''m'')]"
  "matchList (str ''s'' @ 94 # t) = [([], str ''s'')]"
  "matchList (str ''A'' @ 94 # t) = [([], str ''A'')]"
  "matchList (str ''K'' @ 94 # t) = [([], str ''K'')]"
  "matchList (str ''cd'' @ 94 # t) = [([], str ''cd'')]"
  "matchList (str ''mol'' @ 94 # t) = [([], str ''mol''), ([], str ''m'')]"
  "matchList (str ''%'' @ 94 # t) = [([], str ''%'')]"
  "matchList (str ''ppm'' @ 94 # t) = [([], str ''ppm'')]"
  "matchList (str ''ppb'' @ 94 # t) = [([], str ''ppb'')]"
  "matchList (str ''ppt'' @ 94 # t) = [([], str ''ppt'')]"
  "matchList (str ''ppq'' @ 94 # t) = [([], str ''ppq'')]"
  by (simp_all add: tables)

lemma matchList_key_star:
  "matchList (str ''g'' @ 42 # t) = [([], str ''g'')]"
  "matchList (str ''m'' @ 42 # t) = [([], str ''m'')]"
  "matchList (str ''s'' @ 42 # t) = [([], str ''s'')]"
  "matchList (str ''A'' @ 42 # t) = [([], str ''A'')]"
  "matchList (str ''K'' @ 42 # t) = [([], str ''K'')]"
  "matchList (str ''cd'' @ 42 # t) = [([], str ''cd'')]"
  "matchList (str ''mol'' @ 42 # t) = [([], str ''mol''), ([], str ''m'')]"
  "matchList (str ''%'' @ 42 # t) = [([], str ''%'')]"
  "matchList (str ''ppm'' @ 42 # t) = [([], str ''ppm'')]"
  "matchList (str ''ppb'' @ 42 # t) = [([], str ''ppb'')]"
  "matchList (str ''ppt'' @ 42 # t) = [([], str ''ppt'')]"
  "matchList (str ''ppq'' @ 42 # t) = [([], str ''ppq'')]"
  by (simp_all add: tables)

lemma unitKeys_cases:
  assumes "k \<in> set unitKeys"
  obtains "k = str ''g''" | "k = str ''m''" | "k = str ''s''" | "k = str ''A''" | "k = str ''K''"
    | "k = str ''cd''" | "k = str ''mol''" | "k = str ''%''" | "k = str ''ppm''"
    | "k = str ''ppb''" | "k = str ''ppt''" | "k = str ''ppq''"
  using assms unfolding unitKeys_def by (simp only: set_simps insert_iff empty_iff) blast

lemma matchList_unitKey:
  assumes "k \<in> set unitKeys" and "unitEnd t"
  shows "\<exists>ms. matchList (k @ t) = ([], k) # ms"
proof (cases t)
  case Nil
  from assms(1) show ?thesis unfolding Nil
    by (cases rule: unitKeys_cases) (simp_all only: append_Nil2 matchList_key_end, blast+)
next
  case (Cons c u)
  with assms(2) have "c = 94 \<or> c = 42" by (simp add: unitEnd_def)
  then show ?thesis
  proof
    assume "c = 94"
    with assms(1) show ?thesis unfolding Cons
      by (cases rule: unitKeys_cases) (simp_all only: matchList_key_caret, blast+)
  next
    assume "c = 42"
    with assms(1) show ?thesis unfolding Cons
      by (cases rule: unitKeys_cases) (simp_all only: matchList_key_star, blast+)
  qed
qed

lemma derivedUnits_unitKey: "k \<in> set unitKeys \<Longrightarrow> map_of derivedUnits k = None"
  by (erule unitKeys_cases) (simp_all add: derivedUnits_def str_def ohm_def degreeC_def)

lemma parseBase_unitKey:
  assumes "k \<in> set unitKeys" and "unitEnd t"
  shows "parseBase (k @ t) = Success k t
     \<lparr>exponents = [str ''10'' \<mapsto> Exact 0, k \<mapsto> Exact 1], conversion = (\<lambda>m. m)\<rparr>"
proof -
  from matchList_unitKey [OF assms] obtain ms where "matchList (k @ t) = ([], k) # ms" ..
  with derivedUnits_unitKey [OF assms(1)] prefix_empty show ?thesis
    by (simp add: parseBase_def Let_def)
qed

lemma unitKey_head:
  assumes "k \<in> set unitKeys"
  shows "\<exists>c cs. k = c # cs \<and> c \<in> {103, 109, 115, 65, 75, 99, 37, 112}"
  using assms by (cases rule: unitKeys_cases) (simp_all add: str_def)

lemma unitKey_no_space: "k \<in> set unitKeys \<Longrightarrow> 32 \<notin> set k"
  by (erule unitKeys_cases) (simp_all add: str_def)

lemma unitKey_not_ten: "k \<in> set unitKeys \<Longrightarrow> k \<noteq> str ''10''"
  by (erule unitKeys_cases) (simp_all add: str_def)

lemma unitText_factor:
  assumes k: "k \<in> set unitKeys" and t: "t = [] \<or> (\<exists>u. t = 42 # u)"
    and n: "\<bar>n\<bar> \<le> 9007199254740992"
  shows "parseFactor (unitText k n @ t) = Success (unitText k n) t
     \<lparr>exponents = [str ''10'' \<mapsto> Exact 0, k \<mapsto> Exact n], conversion = (\<lambda>m. m)\<rparr>"
proof (cases "n = 1")
  case True
  from t have e: "unitEnd t" by (auto simp: unitEnd_def)
  from t have c: "parseChar t (str ''^'') = Failure [] t"
    by (auto simp: str_def parseChar_Nil parseChar_Cons)
  from True parseBase_unitKey [OF k e] c show ?thesis
    by (simp add: parseFactor_def unitText_def)
next
  case False
  have e: "unitEnd (94 # intToString n @ t)" by (simp add: unitEnd_def)
  from t have d: "noDigitAhead t" by (auto simp: noDigitAhead_def isDigit_def)
  have "parseInteger (intToString n @ t) = Success (intToString n) t (Exact n)"
    using d n by (rule parseInteger_intToString)
  with False n parseBase_unitKey [OF k e] show ?thesis
    by (simp add: parseFactor_def unitText_def parseChar_Cons parseExponent_def str_def
        scaleExponents_def exact_def fun_eq_iff)
qed

lemma parseTerm_of_factor:
  assumes "parseFactor (c # s) = Success fc fr fres" and "c \<noteq> 40"
  shows "parseTerm (c # s) =
     (case fr of
        [] \<Rightarrow> Success fc fr fres
      | a # u \<Rightarrow>
          if a = 42 then
            (case parseTerm u of
               Success tc tr tres \<Rightarrow>
                 Success (fc @ 42 # tc) tr
                   \<lparr>exponents = addExponents (exponents fres) (exponents tres),
                    conversion = (\<lambda>m. conversion fres (conversion tres m))\<rparr>
             | Failure tc tr \<Rightarrow>
                 Success fc fr fres)
          else if a = 47 then
            (case parseTerm u of
               Success tc tr tres \<Rightarrow>
                 Success (fc @ 47 # tc) tr
                   \<lparr>exponents = subExponents (exponents fres) (exponents tres),
                    conversion = (\<lambda>m. conversion fres (conversion tres m))\<rparr>
             | Failure tc tr \<Rightarrow>
                 Success fc fr fres)
          else Success fc fr fres)"
  using assms
  by (cases fr)
    (auto simp: parseTerm_Cons parseCharTerm_Nil parseCharTerm_Cons str_def
      split: outcome.splits)

lemma unitText_head:
  assumes "k \<in> set unitKeys"
  shows "\<exists>c cs. unitText k n = c # cs \<and> c \<in> {103, 109, 115, 65, 75, 99, 37, 112}"
proof -
  from unitKey_head [OF assms] obtain c cs where
    "k = c # cs" "c \<in> {103, 109, 115, 65, 75, 99, 37, 112}" by blast
  then show ?thesis by (auto simp: unitText_def)
qed

lemma vec_lookup: "vec kns j = (if j = str ''10'' then Some (Exact 0)
    else map_of (map (\<lambda>(k, n). (k, Exact n)) kns) j)"
  by (simp add: vec_def)

lemma map_of_Exact:
  "map_of (map (\<lambda>(k, n). (k, Exact n)) kns) j = Some v \<Longrightarrow> \<exists>n. v = Exact n \<and> (j, n) \<in> set kns"
  by (induction kns) (auto split: if_splits)

lemma vec_Cons:
  assumes "k \<noteq> str ''10''" and "k \<notin> fst ` set kns"
    and "\<forall>(j, n) \<in> set kns. \<bar>n\<bar> \<le> 9007199254740992"
  shows "addExponents [str ''10'' \<mapsto> Exact 0, k \<mapsto> Exact n] (vec kns) = vec ((k, n) # kns)"
proof
  fix j
  show "addExponents [str ''10'' \<mapsto> Exact 0, k \<mapsto> Exact n] (vec kns) j = vec ((k, n) # kns) j"
  proof (cases "j = str ''10''")
    case True
    with assms(1) show ?thesis by (simp add: addExponents_def vec_lookup exact_def)
  next
    case False
    show ?thesis
    proof (cases "map_of (map (\<lambda>(k, n). (k, Exact n)) kns) j")
      case None
      with False show ?thesis by (simp add: addExponents_def vec_lookup)
    next
      case (Some v)
      then obtain m where m: "v = Exact m" "(j, m) \<in> set kns" by (auto dest: map_of_Exact)
      with assms(2) have jk: "j \<noteq> k" by force
      from m assms(3) have "\<bar>m\<bar> \<le> 9007199254740992" by auto
      with False Some m jk show ?thesis
        by (simp add: addExponents_def vec_lookup exact_def)
    qed
  qed
qed

lemma vec_single: "k \<noteq> str ''10'' \<Longrightarrow> [str ''10'' \<mapsto> Exact 0, k \<mapsto> Exact n] = vec [(k, n)]"
  by (auto simp: vec_def fun_eq_iff)

lemma parseTerm_renderedUnits:
  assumes "kns \<noteq> []" and "distinct (map fst kns)"
    and "\<forall>(k, n) \<in> set kns. k \<in> set unitKeys \<and> \<bar>n\<bar> \<le> 9007199254740992"
  shows "parseTerm (renderedUnits kns) = Success (renderedUnits kns) []
     \<lparr>exponents = vec kns, conversion = (\<lambda>m. m)\<rparr>"
  using assms
proof (induction kns rule: list_nonempty_induct)
  case (single kn)
  obtain k n where kn: "kn = (k, n)" by (cases kn)
  with single have k: "k \<in> set unitKeys" and n: "\<bar>n\<bar> \<le> 9007199254740992" by auto
  from unitText_head [OF k, of n] obtain c cs where
    c: "unitText k n = c # cs" "c \<noteq> 40" by auto
  have "parseFactor (unitText k n @ []) = Success (unitText k n) []
     \<lparr>exponents = [str ''10'' \<mapsto> Exact 0, k \<mapsto> Exact n], conversion = (\<lambda>m. m)\<rparr>"
    using k _ n by (rule unitText_factor) simp
  then have "parseFactor (c # cs) = Success (c # cs) []
     \<lparr>exponents = vec [(k, n)], conversion = (\<lambda>m. m)\<rparr>"
    using c(1) vec_single [OF unitKey_not_ten [OF k], of n] by simp
  from parseTerm_of_factor [OF this c(2)] kn c(1) show ?case
    by (simp add: renderedUnits_def)
next
  case (cons kn kns)
  obtain k n where kn: "kn = (k, n)" by (cases kn)
  with cons.prems have k: "k \<in> set unitKeys" and n: "\<bar>n\<bar> \<le> 9007199254740992"
    and notin: "k \<notin> fst ` set kns" and d: "distinct (map fst kns)"
    and b: "\<forall>(k, n) \<in> set kns. k \<in> set unitKeys \<and> \<bar>n\<bar> \<le> 9007199254740992"
    by auto
  from b have b': "\<forall>(j, n) \<in> set kns. \<bar>n\<bar> \<le> 9007199254740992" by auto
  from cons.IH [OF d b] have ih: "parseTerm (renderedUnits kns) = Success (renderedUnits kns) []
     \<lparr>exponents = vec kns, conversion = (\<lambda>m. m)\<rparr>" .
  from cons.hyps obtain kn' kns' where kns: "kns = kn' # kns'" by (cases kns) auto
  then have r: "renderedUnits (kn # kns) = unitText k n @ 42 # renderedUnits kns"
    using kn by (simp add: renderedUnits_def str_def)
  from unitText_head [OF k, of n] obtain c cs where
    c: "unitText k n = c # cs" "c \<noteq> 40" by auto
  have "parseFactor (unitText k n @ 42 # renderedUnits kns)
      = Success (unitText k n) (42 # renderedUnits kns)
     \<lparr>exponents = [str ''10'' \<mapsto> Exact 0, k \<mapsto> Exact n], conversion = (\<lambda>m. m)\<rparr>"
    using k _ n by (rule unitText_factor) simp
  then have "parseFactor (c # cs @ 42 # renderedUnits kns)
      = Success (unitText k n) (42 # renderedUnits kns)
     \<lparr>exponents = [str ''10'' \<mapsto> Exact 0, k \<mapsto> Exact n], conversion = (\<lambda>m. m)\<rparr>"
    using c(1) by simp
  from parseTerm_of_factor [OF this c(2)] ih r c(1)
    vec_Cons [OF unitKey_not_ten [OF k] notin b', of n] kn
  show ?case by simp
qed

lemma unitsAhead_noNumber: "unitsAhead t \<Longrightarrow> noNumberAhead t"
  by (cases t) (auto simp: unitsAhead_def noNumberAhead_def isDigit_def)

lemma unitsAhead_noDigit: "unitsAhead t \<Longrightarrow> noDigitAhead t"
  by (cases t) (auto simp: unitsAhead_def noDigitAhead_def isDigit_def)

lemma parseMagnitude_rendered:
  assumes u: "unitsAhead t"
    and n: "\<bar>n\<bar> \<le> 9007199254740992" and ten: "\<bar>ten\<bar> \<le> 9007199254740992"
  shows "parseMagnitude (renderedMagnitude n ten @ t) = Success (renderedMagnitude n ten) t
     \<lparr>significand = Exact n, exponent = Exact ten\<rparr>"
proof (cases "ten = 0")
  case True
  have "parseDecimal (intToString n @ t) = Success (intToString n) t (Exact n)"
    using unitsAhead_noNumber [OF u] n by (rule parseDecimal_intToString)
  moreover from u have "\<not> startsWith t (str ''*10^'')" "charAt0 t \<noteq> str ''E''"
    "charAt0 t \<noteq> str ''e''"
    by (cases t; auto simp: unitsAhead_def startsWith_def charAt0_def str_def)+
  ultimately show ?thesis using True
    by (simp add: parseMagnitude_def parseSignificand_def renderedMagnitude_def)
next
  case False
  let ?r = "str ''*10^'' @ intToString ten @ t"
  have "noNumberAhead ?r" by (simp add: noNumberAhead_def str_def isDigit_def)
  then have "parseDecimal (intToString n @ ?r) = Success (intToString n) ?r (Exact n)"
    using n by (rule parseDecimal_intToString)
  moreover have "startsWith ?r (str ''*10^'')" by (simp add: startsWith_def)
  moreover have "parseInteger (intToString ten @ t) = Success (intToString ten) t (Exact ten)"
    using unitsAhead_noDigit [OF u] ten by (rule parseInteger_intToString)
  ultimately show ?thesis using False
    by (simp add: parseMagnitude_def parseSignificand_def renderedMagnitude_def
        parseExponent_def Let_def)
qed

lemma renderedUnits_head:
  assumes "kns \<noteq> []" and "\<forall>(k, n) \<in> set kns. k \<in> set unitKeys"
  shows "\<exists>c cs. renderedUnits kns = c # cs \<and> c \<in> {103, 109, 115, 65, 75, 99, 37, 112}"
proof -
  from assms(1) obtain k n kns' where kns: "kns = (k, n) # kns'" by (cases kns) auto
  with assms(2) have "k \<in> set unitKeys" by auto
  from unitText_head [OF this, of n] obtain c cs where
    c: "unitText k n = c # cs" "c \<in> {103, 109, 115, 65, 75, 99, 37, 112}" by blast
  show ?thesis
  proof (cases kns')
    case Nil
    with kns c show ?thesis by (simp add: renderedUnits_def)
  next
    case (Cons a list)
    with kns c show ?thesis by (simp add: renderedUnits_def)
  qed
qed

lemma renderedUnits_Nil [simp]: "renderedUnits [] = []"
  by (simp add: renderedUnits_def)

lemma unitsAhead_renderedUnits:
  assumes "\<forall>(k, n) \<in> set kns. k \<in> set unitKeys"
  shows "unitsAhead (renderedUnits kns)"
proof (cases "kns = []")
  case True
  then show ?thesis by (simp add: unitsAhead_def)
next
  case False
  from renderedUnits_head [OF False assms] show ?thesis by (auto simp: unitsAhead_def)
qed

lemma vec_ten: "vec kns (str ''10'') = Some (Exact 0)"
  by (simp add: vec_def)

lemma parseExpression_rendered:
  assumes d: "distinct (map fst kns)"
    and b: "\<forall>(k, n) \<in> set kns. k \<in> set unitKeys \<and> \<bar>n\<bar> \<le> 9007199254740992"
    and n: "\<bar>n\<bar> \<le> 9007199254740992" and ten: "\<bar>ten\<bar> \<le> 9007199254740992"
  shows "parseExpression (renderedMagnitude n ten @ renderedUnits kns)
    = Returns (Success (renderedMagnitude n ten @ renderedUnits kns) []
        \<lparr>magnitude = Exact n, expExponents = (vec kns)(str ''10'' \<mapsto> Exact ten)\<rparr>)"
proof -
  from b have b': "\<forall>(k, n) \<in> set kns. k \<in> set unitKeys" by auto
  have m: "parseMagnitude (renderedMagnitude n ten @ renderedUnits kns)
      = Success (renderedMagnitude n ten) (renderedUnits kns)
          \<lparr>significand = Exact n, exponent = Exact ten\<rparr>"
    using unitsAhead_renderedUnits [OF b'] n ten by (rule parseMagnitude_rendered)
  show ?thesis
  proof (cases "kns = []")
    case True
    with m have "parseMagnitude (renderedMagnitude n ten @ renderedUnits kns)
      = Success (renderedMagnitude n ten) []
          \<lparr>significand = Exact n, exponent = Exact ten\<rparr>" by simp
    from parseExpression_magnitude_only [OF this] True show ?thesis
      by (simp add: vec_def fun_eq_iff)
  next
    case False
    from renderedUnits_head [OF False b'] obtain c cs where
      c: "renderedUnits kns = c # cs" "c \<noteq> 42" "c \<noteq> 47" by auto
    from parseTerm_renderedUnits [OF False d b] c(1)
    have t: "parseTerm (c # cs) = Success (c # cs) []
       \<lparr>exponents = vec kns, conversion = (\<lambda>m. m)\<rparr>" by simp
    from m c(1) have "parseMagnitude (renderedMagnitude n ten @ renderedUnits kns)
      = Success (renderedMagnitude n ten) (c # cs)
          \<lparr>significand = Exact n, exponent = Exact ten\<rparr>" by simp
    from parseExpression_magnitude_term [OF this] c t ten show ?thesis
      by (simp add: vec_ten exact_def)
  qed
qed

lemma stripSpaces_id: "32 \<notin> set s \<Longrightarrow> stripSpaces s = s"
  by (induction s) (auto simp: stripSpaces_def)

lemma stripSpaces_append: "stripSpaces (a @ b) = stripSpaces a @ stripSpaces b"
  by (simp add: stripSpaces_def)

lemma intToString_no_space: "32 \<notin> set (intToString i)"
  using intToString_chars [of 32 i] by (auto simp: isDigit_def)

lemma renderedMagnitude_no_space: "32 \<notin> set (renderedMagnitude n ten)"
  by (simp add: renderedMagnitude_def intToString_no_space str_def)

lemma renderedMagnitude_nonempty: "renderedMagnitude n ten \<noteq> []"
  by (simp add: renderedMagnitude_def intToString_nonempty)

lemma unitText_no_space: "k \<in> set unitKeys \<Longrightarrow> 32 \<notin> set (unitText k n)"
  by (simp add: unitText_def unitKey_no_space intToString_no_space str_def)

lemma join_no_space:
  "32 \<notin> set sep \<Longrightarrow> \<forall>x \<in> set xs. 32 \<notin> set x \<Longrightarrow> 32 \<notin> set (join sep xs)"
  by (induction sep xs rule: join.induct) auto

lemma renderedUnits_no_space:
  assumes "\<forall>(k, n) \<in> set kns. k \<in> set unitKeys"
  shows "32 \<notin> set (renderedUnits kns)"
  unfolding renderedUnits_def
proof (rule join_no_space)
  show "32 \<notin> set (str ''*'')" by (simp add: str_def)
  show "\<forall>x \<in> set (map (\<lambda>(k, n). unitText k n) kns). 32 \<notin> set x"
    using assms by (auto simp: unitText_no_space)
qed

lemma those_map_Some:
  "\<forall>x \<in> set xs. f x = Some (g x) \<Longrightarrow> those (map f xs) = Some (map g xs)"
  by (induction xs) auto

lemma unitKeys_distinct: "distinct unitKeys"
  by (simp add: unitKeys_def str_def)

lemma filter_mem_filter: "filter (\<lambda>k. k \<in> set (filter P xs)) xs = filter P xs"
  by (rule filter_cong) auto

lemma vec_key:
  assumes "distinct (map fst kns)" and "(k, n) \<in> set kns" and "k \<noteq> str ''10''"
  shows "((vec kns)(str ''10'' \<mapsto> Exact ten)) k = Some (Exact n)"
proof -
  from assms(1) have "distinct (map fst (map (\<lambda>(k, n). (k, Exact n)) kns))"
    by (simp add: comp_def case_prod_unfold)
  moreover from assms(2) have "(k, Exact n) \<in> set (map (\<lambda>(k, n). (k, Exact n)) kns)"
    by force
  ultimately have "map_of (map (\<lambda>(k, n). (k, Exact n)) kns) k = Some (Exact n)"
    by (rule map_of_is_SomeI)
  with assms(3) show ?thesis by (simp add: vec_def)
qed

lemma vec_present:
  assumes "k \<noteq> str ''10''"
  shows "((vec kns)(str ''10'' \<mapsto> Exact ten)) k \<noteq> None \<longleftrightarrow> k \<in> set (map fst kns)"
proof -
  have "map_of (map (\<lambda>(k, n). (k, Exact n)) kns) k \<noteq> None
      \<longleftrightarrow> k \<in> fst ` set (map (\<lambda>(k, n). (k, Exact n)) kns)"
    by (simp add: map_of_eq_None_iff)
  also have "fst ` set (map (\<lambda>(k, n). (k, Exact n)) kns) = fst ` set kns"
    by force
  finally show ?thesis using assms by (simp add: vec_def)
qed

lemma normalizeUnits_rendered:
  assumes o: "map fst kns = filter P unitKeys"
    and b: "\<forall>(k, n) \<in> set kns. \<bar>n\<bar> \<le> 9007199254740992"
    and n: "\<bar>n\<bar> \<le> 9007199254740992" and ten: "\<bar>ten\<bar> \<le> 9007199254740992"
    and out: "out = renderedMagnitude n ten
        @ (if renderedUnits kns = str ''%'' \<or> renderedUnits kns = [] then [] else str '' '')
        @ renderedUnits kns"
  shows "normalizeUnits out = Returns out"
proof -
  let ?M = "renderedMagnitude n ten"
  let ?U = "renderedUnits kns"
  let ?e = "(vec kns)(str ''10'' \<mapsto> Exact ten)"
  have keys: "\<forall>(k, n) \<in> set kns. k \<in> set unitKeys"
  proof -
    have "k \<in> set unitKeys" if "(k, m) \<in> set kns" for k m
    proof -
      from that have "k \<in> set (map fst kns)" by force
      with o show ?thesis by simp
    qed
    then show ?thesis by auto
  qed
  with b have b': "\<forall>(k, n) \<in> set kns. k \<in> set unitKeys \<and> \<bar>n\<bar> \<le> 9007199254740992"
    by auto
  have d: "distinct (map fst kns)" using o unitKeys_distinct by simp
  have s: "stripSpaces out = ?M @ ?U"
    unfolding out
    by (simp add: stripSpaces_append stripSpaces_id renderedMagnitude_no_space
        renderedUnits_no_space [OF keys]) (simp add: stripSpaces_def str_def)
  have ne: "?M @ ?U \<noteq> []" by (simp add: renderedMagnitude_nonempty)
  have e: "parseExpression (?M @ ?U)
      = Returns (Success (?M @ ?U) [] \<lparr>magnitude = Exact n, expExponents = ?e\<rparr>)"
    using d b' n ten by (rule parseExpression_rendered)
  have rm: "renderMagnitude (Exact n) ?e = Some ?M"
    by (simp add: renderMagnitude_def renderedMagnitude_def)
  have present: "filter (\<lambda>k. ?e k \<noteq> None) unitKeys = map fst kns"
  proof -
    have "filter (\<lambda>k. ?e k \<noteq> None) unitKeys
        = filter (\<lambda>k. k \<in> set (map fst kns)) unitKeys"
      by (rule filter_cong) (auto simp only: vec_present [OF unitKey_not_ten])
    also have "\<dots> = map fst kns" unfolding o by (rule filter_mem_filter)
    finally show ?thesis .
  qed
  have ru: "those (map (renderUnit ?e) (map fst kns))
      = Some (map (\<lambda>(k, n). unitText k n) kns)"
  proof -
    have "renderUnit ?e (fst kn) = Some (case kn of (k, n) \<Rightarrow> unitText k n)"
      if "kn \<in> set kns" for kn
    proof -
      obtain k m where kn: "kn = (k, m)" by (cases kn)
      with that keys have "k \<in> set unitKeys" by auto
      then have "k \<noteq> str ''10''" by (rule unitKey_not_ten)
      with that kn have "?e k = Some (Exact m)" by (intro vec_key [OF d]) simp_all
      with kn show ?thesis by (simp add: renderUnit_Exact)
    qed
    then have "those (map (renderUnit ?e \<circ> fst) kns)
        = Some (map (\<lambda>kn. case kn of (k, n) \<Rightarrow> unitText k n) kns)"
      by (intro those_map_Some) simp
    then show ?thesis by (simp add: comp_def)
  qed
  have inner: "normalizeUnits_inner out = Returns (Success (?M @ ?U) []
      \<lparr>magnitudeString = ?M, unitsString = ?U\<rparr>)"
    unfolding normalizeUnits_inner_def Let_def present_unitKeys
    using s ne e rm present ru by (simp add: renderedUnits_def)
  show ?thesis
    unfolding normalizeUnits_def throttle_def inner
    by (simp add: renderedMagnitude_nonempty out)
qed

lemma normalizeUnits_Returns:
  assumes "normalizeUnits x = Returns out" and "stripSpaces x \<noteq> []"
  shows "\<exists>c r eres M rs.
      parseExpression (stripSpaces x) = Returns (Success c r eres)
      \<and> renderMagnitude (magnitude eres) (expExponents eres) = Some M
      \<and> those (map (renderUnit (expExponents eres))
                 (filter (\<lambda>k. expExponents eres k \<noteq> None) unitKeys)) = Some rs
      \<and> out = M @ (if join (str ''*'') rs = str ''%'' \<or> join (str ''*'') rs = [] then []
                     else str '' '') @ join (str ''*'') rs"
proof -
  from assms(1) obtain c r res where
    inner: "normalizeUnits_inner x = Returns (Success c r res)"
    and o: "out = (if magnitudeString res = [] \<and> unitsString res = [] then []
         else magnitudeString res
              @ (if unitsString res = str ''%'' \<or> unitsString res = [] then [] else str '' '')
              @ unitsString res)"
    by (auto simp: normalizeUnits_def throttle_def split: completion.splits outcome.splits)
  from o have out: "out = magnitudeString res
      @ (if unitsString res = str ''%'' \<or> unitsString res = [] then [] else str '' '')
      @ unitsString res"
    by auto
  from inner assms(2) obtain eres M rs where
    "parseExpression (stripSpaces x) = Returns (Success c r eres)"
    "renderMagnitude (magnitude eres) (expExponents eres) = Some M"
    "those (map (renderUnit (expExponents eres))
                 (filter (\<lambda>k. expExponents eres k \<noteq> None) unitKeys)) = Some rs"
    "res = \<lparr>magnitudeString = M, unitsString = join (str ''*'') rs\<rparr>"
    unfolding normalizeUnits_inner_def Let_def present_unitKeys
    by (auto split: completion.splits outcome.splits option.splits if_splits)
  with out show ?thesis by auto
qed

lemma renderMagnitude_Exact:
  assumes "renderMagnitude (Exact n) e = Some M" and "e (str ''10'') = Some v" and "v \<noteq> NaN"
  shows "\<exists>ten. v = Exact ten \<and> M = renderedMagnitude n ten"
  using assms
  by (cases v) (auto simp: renderMagnitude_def renderedMagnitude_def split: bool.splits)

lemma renderMagnitude_NaN_null:
  "renderMagnitude NaN e = Some M \<Longrightarrow> prefix (str ''null'') M"
  by (auto simp: renderMagnitude_def split: option.splits bool.splits)

lemma renderMagnitude_cases:
  assumes "renderMagnitude m e = Some M" and "\<not> prefix (str ''null'') M"
  shows "\<exists>n. m = Exact n"
proof (cases m)
  case (Exact n)
  then show ?thesis by simp
next
  case NaN
  with assms renderMagnitude_NaN_null [of e M] show ?thesis by simp
next
  case Inexact
  with assms(1) show ?thesis by (simp add: renderMagnitude_def)
qed

lemma zip_lookup:
  assumes "map e ks = map (\<lambda>n. Some (Exact n)) ns" and "(k, m) \<in> set (zip ks ns)"
  shows "e k = Some (Exact m)"
proof -
  from assms(2) obtain i where i: "i < length ks" "i < length ns" "ks ! i = k" "ns ! i = m"
    by (auto simp: in_set_zip)
  from assms(1) have "map e ks ! i = map (\<lambda>n. Some (Exact n)) ns ! i" by simp
  with i show ?thesis by simp
qed

section \<open>What a failure reports as consumed\<close>

text \<open>
  A failed rule reports the text of the sub-rules that matched before the failing
  one, followed by what the failing sub-rule reports itself: nothing for a character
  or a run of digits, the leading signs for an integer or a decimal.
\<close>

lemma parseInteger_Failure_signs: "parseInteger s = Failure c r \<Longrightarrow> c = signs s"
proof (induction s arbitrary: c r)
  case Nil
  then show ?case by (simp add: parseInteger_Nil signs_def)
next
  case (Cons a s)
  then show ?case
    by (auto simp: parseInteger_Cons signs_def split: if_splits outcome.splits
        dest: parseDigits_Failure)
qed

lemma parseDecimal_Failure_signs: "parseDecimal s = Failure c r \<Longrightarrow> c = signs s"
proof (induction s arbitrary: c r)
  case Nil
  then show ?case by (simp add: parseDecimal_Nil signs_def)
next
  case (Cons a s)
  then show ?case
    by (auto simp: parseDecimal_Cons signs_def Let_def split: if_splits outcome.splits
        dest: parseDigits_Failure)
qed

lemma consumed_Failure: "\<not> success out \<Longrightarrow> \<exists>c r. out = Failure c r"
  by (cases out) auto

lemma parseInteger_consumed_signs:
  "\<not> success (parseInteger s) \<Longrightarrow> consumed (parseInteger s) = signs s"
  by (auto dest!: consumed_Failure dest: parseInteger_Failure_signs)

lemma parseDecimal_consumed_signs:
  "\<not> success (parseDecimal s) \<Longrightarrow> consumed (parseDecimal s) = signs s"
  by (auto dest!: consumed_Failure dest: parseDecimal_Failure_signs)

lemma parseMagnitude_operator:
  assumes "parseDecimal s = Success sc sr sres" and "prefix operator sr"
    and "parseMagnitude s =
      (case parseExponent (drop (length operator) sr) of
         Success ec er eres \<Rightarrow>
           Success (sc @ operator @ ec) (drop (length (sc @ operator @ ec)) s)
             \<lparr>significand = sres, exponent = eres\<rparr>
       | Failure ec er \<Rightarrow> Failure (sc @ operator @ ec) s)"
    and "\<not> success (parseMagnitude s)"
  shows "\<not> success (parseExponent (drop (length operator) sr))
     \<and> consumed (parseMagnitude s) = sc @ operator @ signs (drop (length operator) sr)"
proof (cases "parseInteger (drop (length operator) sr)")
  case (Success ec er eres)
  with assms(3,4) show ?thesis by (simp add: parseExponent_def)
next
  case (Failure ec er)
  then have "ec = signs (drop (length operator) sr)" by (rule parseInteger_Failure_signs)
  with Failure assms(3) show ?thesis by (simp add: parseExponent_def)
qed

lemma parseMagnitude_consumed:
  assumes "\<not> success (parseMagnitude s)"
  shows "if success (parseSignificand s)
     then \<exists>operator. operator \<in> {str ''*10^'', str ''E'', str ''e''}
            \<and> prefix operator (rest (parseSignificand s))
            \<and> \<not> success (parseExponent (drop (length operator) (rest (parseSignificand s))))
            \<and> consumed (parseMagnitude s) = consumed (parseSignificand s) @ operator
                @ signs (drop (length operator) (rest (parseSignificand s)))
     else consumed (parseMagnitude s) = signs s"
proof (cases "parseDecimal s")
  case (Failure sc sr)
  then have "sc = signs s" by (rule parseDecimal_Failure_signs)
  with Failure show ?thesis by (simp add: parseMagnitude_def parseSignificand_def)
next
  case sg: (Success sc sr sres)
  have "\<exists>operator. operator \<in> {str ''*10^'', str ''E'', str ''e''} \<and> prefix operator sr
      \<and> \<not> success (parseExponent (drop (length operator) sr))
      \<and> consumed (parseMagnitude s) = sc @ operator @ signs (drop (length operator) sr)"
  proof (cases "prefix (str ''*10^'') sr")
    case True
    with sg have "parseMagnitude s =
      (case parseExponent (drop (length (str ''*10^'')) sr) of
         Success ec er eres \<Rightarrow>
           Success (sc @ str ''*10^'' @ ec) (drop (length (sc @ str ''*10^'' @ ec)) s)
             \<lparr>significand = sres, exponent = eres\<rparr>
       | Failure ec er \<Rightarrow> Failure (sc @ str ''*10^'' @ ec) s)"
      by (auto simp: parseMagnitude_def parseSignificand_def Let_def startsWith_def
          split: outcome.splits)
    from parseMagnitude_operator [OF sg True this assms] True show ?thesis by blast
  next
    case star: False
    show ?thesis
    proof (cases "take 1 sr = str ''E'' \<or> take 1 sr = str ''e''")
      case False
      with sg star assms show ?thesis
        by (simp add: parseMagnitude_def parseSignificand_def Let_def startsWith_def charAt0_def)
    next
      case True
      have p: "prefix (take 1 sr) sr" by (rule take_is_prefix)
      from True have l: "length (take 1 sr) = 1" by (cases sr) (auto simp: str_def)
      from sg star True have "parseMagnitude s =
        (case parseExponent (drop (length (take 1 sr)) sr) of
           Success ec er eres \<Rightarrow>
             Success (sc @ take 1 sr @ ec) (drop (length (sc @ take 1 sr @ ec)) s)
               \<lparr>significand = sres, exponent = eres\<rparr>
         | Failure ec er \<Rightarrow> Failure (sc @ take 1 sr @ ec) s)"
        by (auto simp: parseMagnitude_def parseSignificand_def Let_def startsWith_def charAt0_def
            simp del: One_nat_def length_take split: outcome.splits)
      from parseMagnitude_operator [OF sg p this assms] True p show ?thesis by blast
    qed
  qed
  with sg show ?thesis by (simp add: parseSignificand_def)
qed

lemma parseFactor_consumed:
  assumes "\<not> success (parseFactor s)"
  shows "if success (parseBase s)
     then prefix (str ''^'') (rest (parseBase s))
          \<and> \<not> success (parseExponent (drop 1 (rest (parseBase s))))
          \<and> consumed (parseFactor s) = consumed (parseBase s) @ str ''^''
              @ signs (drop 1 (rest (parseBase s)))
     else consumed (parseFactor s) = []"
proof (cases "parseBase s")
  case (Failure bc br)
  then have "bc = []" by (auto simp: parseBase_def Let_def split: list.splits prod.splits)
  with Failure show ?thesis by (simp add: parseFactor_def)
next
  case b: (Success bc br bres)
  show ?thesis
  proof (cases br)
    case Nil
    with assms b show ?thesis by (simp add: parseFactor_def parseChar_Nil str_def)
  next
    case (Cons a t)
    with assms b show ?thesis
      by (auto simp: parseFactor_def parseChar_Cons str_def parseExponent_def
          split: if_splits outcome.splits dest: parseInteger_Failure_signs)
  qed
qed

lemma parseTerm_consumed:
  assumes "\<not> success (parseTerm s)"
  shows "if prefix (str ''('') s
     then consumed (parseTerm s) = str ''('' @ consumed (parseTerm (drop 1 s))
          \<and> (success (parseTerm (drop 1 s))
               \<longrightarrow> \<not> prefix (str '')'') (rest (parseTerm (drop 1 s))))
     else \<not> success (parseFactor s) \<and> consumed (parseTerm s) = consumed (parseFactor s)"
proof (cases s)
  case Nil
  then show ?thesis by (simp add: parseTerm_Nil parseFactor_Nil str_def)
next
  case (Cons a t)
  show ?thesis
  proof (cases "a = 40")
    case True
    show ?thesis
    proof (cases "parseTerm t")
      case (Failure bc br)
      with assms Cons True show ?thesis by (simp add: parseTerm_Cons str_def)
    next
      case (Success bc br bres)
      with assms Cons True show ?thesis
        by (cases br) (auto simp: parseTerm_Cons str_def parseChar_Nil parseChar_Cons
            split: if_splits)
    qed
  next
    case False
    with assms Cons show ?thesis
      by (auto simp: parseTerm_Cons str_def split: outcome.splits)
  qed
qed

lemma parseCharTerm_consumed:
  assumes "\<not> success (parseCharTerm s ch)"
  shows "if success (parseChar s ch)
     then \<not> success (parseTerm (rest (parseChar s ch)))
          \<and> consumed (parseCharTerm s ch) = ch @ consumed (parseTerm (rest (parseChar s ch)))
     else consumed (parseCharTerm s ch) = []"
proof (cases "parseChar s ch")
  case (Failure cc cr)
  then have "cc = []" by (auto dest: parseChar_FailureD)
  with Failure show ?thesis by (subst parseCharTerm.simps) simp
next
  case (Success cc cr u)
  then have "cc = ch" by (auto simp: parseChar_def split: if_splits)
  with assms Success show ?thesis
    by (subst parseCharTerm.simps, subst (asm) parseCharTerm.simps)
      (auto split: outcome.splits)
qed

lemma parseExpression_consumed:
  assumes "parseExpression s = Returns out" and "\<not> success out"
  shows "if success (parseMagnitude s) \<or> consumed (parseMagnitude s) = []
     then \<not> success (parseTerm (drop (length (operatorOf (rest (parseMagnitude s))))
                                  (rest (parseMagnitude s))))
          \<and> consumed out = consumed (parseMagnitude s) @ operatorOf (rest (parseMagnitude s))
              @ consumed (parseTerm (drop (length (operatorOf (rest (parseMagnitude s))))
                                       (rest (parseMagnitude s))))
     else consumed out = consumed (parseMagnitude s)"
proof (cases "rest (parseMagnitude s)")
  case Nil
  with assms show ?thesis
    by (auto simp: parseExpression_def Let_def split: if_splits outcome.splits)
next
  case (Cons a t)
  with assms show ?thesis
    by (auto simp: parseExpression_def Let_def charAt0_def str_def operatorOf_def
        split: if_splits outcome.splits)
qed

lemma parseInteger_success: "success (parseInteger s) = (\<not> noDigitAhead (drop (length (signs s)) s))"
proof (induction s)
  case Nil
  then show ?case by (simp add: parseInteger_Nil signs_def noDigitAhead_def)
next
  case (Cons a s)
  then show ?case
    by (cases s) (auto simp: parseInteger_Cons signs_def noDigitAhead_def parseDigits_def Let_def
        isDigit_def split: outcome.splits)
qed

lemma parseDecimal_success:
  "success (parseDecimal s) = (\<not> noNumberAhead (drop (length (signs s)) s))"
proof (induction s)
  case Nil
  then show ?case by (simp add: parseDecimal_Nil signs_def noNumberAhead_def)
next
  case (Cons a s)
  then show ?case
    by (auto simp: parseDecimal_Cons signs_def noNumberAhead_def parseDigits_def Let_def
        isDigit_def parseDotDigits_def parseChar_Cons parseChar_Nil str_def
        split: outcome.splits list.splits)
qed

lemma matchList_q: "matchList (str ''q'') = []"
  by (simp add: tables)

lemma eval_integer: "parseInteger (str ''+-x'') = Failure (str ''+-'') (str ''+-x'')"
  by (simp add: lexdefs ev)

lemma eval_decimal: "parseDecimal (str ''-x'') = Failure (str ''-'') (str ''-x'')"
  by (simp add: lexdefs ev)

lemma eval_magnitude: "parseMagnitude (str ''5*10^-q'') = Failure (str ''5*10^-'') (str ''5*10^-q'')"
  by (simp add: lexdefs ev)

lemma eval_magnitude_e: "parseMagnitude (str ''5e+q'') = Failure (str ''5e+'') (str ''5e+q'')"
  by (simp add: lexdefs ev)

lemma eval_factor: "parseFactor (str ''m^-x'') = Failure (str ''m^-'') (str ''m^-x'')"
  using matchList_m(2) [of "str ''-x''"] prefix_empty derived_base
  by (simp add: ev evdefs str_def)

lemma eval_term: "parseTerm (str ''(m'') = Failure (str ''(m'') (str ''(m'')"
  using parseTerm_m by (simp add: ev str_def)

lemma eval_term_inner: "parseTerm (str ''(q'') = Failure (str ''('') (str ''(q'')"
  using matchList_q by (simp add: ev evdefs str_def)

lemma eval_charTerm: "parseCharTerm (str ''*q'') (str ''*'') = Failure (str ''*'') (str ''*q'')"
  using matchList_q by (simp add: ev evdefs str_def)

lemma eval_expression_e:
  "parseExpression (str ''5e+q'') = Returns (Failure (str ''5e+'') (str ''5e+q''))"
  using eval_magnitude_e by (simp add: parseExpression_def Let_def str_def)

lemma eval_expression_star:
  "parseExpression (str ''5*q'') = Returns (Failure (str ''5*'') (str ''5*q''))"
  using matchList_q by (simp add: lexdefs ev)

section \<open>The claims\<close>

text \<open>
  C9. For every grammar rule and every input string, the \<^verbatim>\<open>rest\<close> of a failure
  outcome is the entire input string, unchanged: a failed rule never advances the
  cursor. Every rule of the module is covered, the lexical ones included; the
  expression rule and \<^verbatim>\<open>_normalizeUnits\<close> where they return.
\<close>

theorem failure_rest_is_input:
  "(\<not> success (parseChar s ch) \<longrightarrow> rest (parseChar s ch) = s)
   \<and> (\<not> success (parseDigits s) \<longrightarrow> rest (parseDigits s) = s)
   \<and> (\<not> success (parseDotDigits s) \<longrightarrow> rest (parseDotDigits s) = s)
   \<and> (\<not> success (parseInteger s) \<longrightarrow> rest (parseInteger s) = s)
   \<and> (\<not> success (parseExponent s) \<longrightarrow> rest (parseExponent s) = s)
   \<and> (\<not> success (parseDecimal s) \<longrightarrow> rest (parseDecimal s) = s)
   \<and> (\<not> success (parseSignificand s) \<longrightarrow> rest (parseSignificand s) = s)
   \<and> (\<not> success (parseBase s) \<longrightarrow> rest (parseBase s) = s)
   \<and> (\<not> success (parseFactor s) \<longrightarrow> rest (parseFactor s) = s)
   \<and> (\<not> success (parseTerm s) \<longrightarrow> rest (parseTerm s) = s)
   \<and> (\<not> success (parseAsterixTerm s) \<longrightarrow> rest (parseAsterixTerm s) = s)
   \<and> (\<not> success (parseSlashTerm s) \<longrightarrow> rest (parseSlashTerm s) = s)
   \<and> (\<not> success (parseCharTerm s ch) \<longrightarrow> rest (parseCharTerm s ch) = s)
   \<and> (\<not> success (parseMagnitude s) \<longrightarrow> rest (parseMagnitude s) = s)
   \<and> (\<forall>out. parseExpression s = Returns out \<longrightarrow> \<not> success out \<longrightarrow> rest out = s)
   \<and> (\<forall>out. normalizeUnits_inner s = Returns out \<longrightarrow> \<not> success out \<longrightarrow> rest out = s)"
proof -
  have n: "rest out = s" if "normalizeUnits_inner s = Returns out" "\<not> success out" for out
    using that by (cases out) (auto dest: normalizeUnits_inner_Failure)
  show ?thesis
    using wellFormed_parseChar [of s ch] wellFormed_parseDigits [of s]
      wellFormed_parseDotDigits [of s] wellFormed_parseInteger [of s]
      wellFormed_parseDecimal [of s] wellFormed_parseBase [of s] wellFormed_parseFactor [of s]
      wellFormed_parseTerm_all(1) [of s] wellFormed_parseTerm_all(2) [of s]
      wellFormed_parseTerm_all(3) [of s] wellFormed_parseTerm_all(4) [of s ch]
      wellFormed_parseMagnitude [of s]
      wellFormed_parseExpression [of s] n
    by (simp add: parseExponent_def parseSignificand_def not_success_rest)
qed

text \<open>
  Every rule fails on \<^verbatim>\<open>qPa\<close> and keeps it; the expression rule fails on
  \<^verbatim>\<open>50qPa\<close> after consuming \<^verbatim>\<open>50\<close> and still reports the whole input as rest.
\<close>

theorem failure_rest_is_input_witness:
  "parseChar (str ''qPa'') (str ''('') = Failure [] (str ''qPa'')
   \<and> parseDigits (str ''qPa'') = Failure [] (str ''qPa'')
   \<and> parseDotDigits (str ''qPa'') = Failure [] (str ''qPa'')
   \<and> parseInteger (str ''qPa'') = Failure [] (str ''qPa'')
   \<and> parseExponent (str ''qPa'') = Failure [] (str ''qPa'')
   \<and> parseDecimal (str ''qPa'') = Failure [] (str ''qPa'')
   \<and> parseSignificand (str ''qPa'') = Failure [] (str ''qPa'')
   \<and> parseBase (str ''qPa'') = Failure [] (str ''qPa'')
   \<and> parseFactor (str ''qPa'') = Failure [] (str ''qPa'')
   \<and> parseTerm (str ''qPa'') = Failure [] (str ''qPa'')
   \<and> parseAsterixTerm (str ''qPa'') = Failure [] (str ''qPa'')
   \<and> parseSlashTerm (str ''qPa'') = Failure [] (str ''qPa'')
   \<and> parseCharTerm (str ''qPa'') (str ''('') = Failure [] (str ''qPa'')
   \<and> parseMagnitude (str ''qPa'') = Failure [] (str ''qPa'')
   \<and> parseExpression (str ''qPa'') = Returns (Failure [] (str ''qPa''))
   \<and> normalizeUnits_inner (str ''qPa'') = Returns (Failure [] (str ''qPa''))
   \<and> rest (Failure (str ''50'') (str ''50qPa'') :: expression_result outcome) = str ''50qPa''
   \<and> parseExpression (str ''50qPa'') = Returns (Failure (str ''50'') (str ''50qPa''))"
  using failure_rest_is_input [of "str ''qPa''" "str ''(''"]
    failure_rest_is_input [of "str ''50qPa''" "str ''(''"] matchList_qPa parseExpression_qPa
    parseExpression_50qPa
  by (simp add: normalizeUnits_inner_def stripSpaces_def lexdefs ev)





text \<open>
  C1. \<^verbatim>\<open>normalizeUnits("50 kPa")\<close> succeeds and returns the canonical string
  \<^verbatim>\<open>50*10^6 g*m^-1*s^-2\<close>: the prefix \<^verbatim>\<open>k\<close> contributes 3 to the exponent of 10,
  \<^verbatim>\<open>Pa\<close> contributes \<^verbatim>\<open>{10: 3, g: 1, m: -1, s: -2}\<close>, the accumulated exponent 6 is
  folded into the magnitude as \<^verbatim>\<open>50*10^6\<close>, and the units string is
  \<^verbatim>\<open>g*m^-1*s^-2\<close>.
\<close>

theorem normalize_50_kPa:
  "normalizeUnits (str ''50 kPa'') = Returns (str ''50*10^6 g*m^-1*s^-2'')
   \<and> map_of prefixesTable (str ''k'') = Some 3
   \<and> map_of derivedUnits (str ''Pa'') =
       Some ([(str ''10'', 3), (str ''g'', 1), (str ''m'', - 1), (str ''s'', - 2)], None)
   \<and> parseExpression (str ''50kPa'') = Returns (Success (str ''50kPa'') []
         \<lparr>magnitude = Exact 50,
          expExponents = [str ''10'' \<mapsto> Exact 6, str ''g'' \<mapsto> Exact 1,
                          str ''m'' \<mapsto> Exact (- 1), str ''s'' \<mapsto> Exact (- 2)]\<rparr>)
   \<and> normalizeUnits_inner (str ''50 kPa'') = Returns (Success (str ''50kPa'') []
         \<lparr>magnitudeString = str ''50*10^6'', unitsString = str ''g*m^-1*s^-2''\<rparr>)"
  using normalizeUnits_50kPa prefix_k derived_Pa parseExpression_50kPa normalizeUnits_inner_50kPa
  by simp

text \<open>
  C6, as amended. The claim reads: \<^verbatim>\<open>5*10^4 kg*m^-1*s^-2\<close> and \<^verbatim>\<open>50 kPa\<close> normalize
  to the same magnitude and the same exponent vector, the entry of 10 included. The
  parser keeps the significand as written and only adds exponents of ten, so the two
  results agree on every unit key other than 10 (\<^verbatim>\<open>g: 1, m: -1, s: -2\<close> and no other
  key) and denote the same quantity (\<open>5 * 10^7 = 50 * 10^6\<close>), but the first has
  magnitude 5 with exponent 7 of ten (4 written, 3 from the prefix of \<^verbatim>\<open>kg\<close>) and the
  second magnitude 50 with exponent 6. \<^verbatim>\<open>kg\<close> is the prefix exponent 3 on the key 10
  and \<^verbatim>\<open>g^1\<close>.
\<close>

theorem cross_representation:
  "(\<exists>ra rb.
      parseExpression (str ''5*10^4kg*m^-1*s^-2'')
        = Returns (Success (str ''5*10^4kg*m^-1*s^-2'') [] ra)
      \<and> parseExpression (str ''50kPa'') = Returns (Success (str ''50kPa'') [] rb)
      \<and> magnitude ra = Exact 5 \<and> expExponents ra (str ''10'') = Some (Exact 7)
      \<and> magnitude rb = Exact 50 \<and> expExponents rb (str ''10'') = Some (Exact 6)
      \<and> (expExponents ra)(str ''10'' := None) = (expExponents rb)(str ''10'' := None)
      \<and> (expExponents rb)(str ''10'' := None)
          = [str ''g'' \<mapsto> Exact 1, str ''m'' \<mapsto> Exact (- 1), str ''s'' \<mapsto> Exact (- 2)])
   \<and> (5 :: int) * 10 ^ 7 = 50 * 10 ^ 6
   \<and> parseBase (str ''kg'' @ 42 # t) = Success (str ''kg'') (42 # t)
         \<lparr>exponents = [str ''10'' \<mapsto> Exact 3, str ''g'' \<mapsto> Exact 1], conversion = (\<lambda>m. m)\<rparr>
   \<and> normalizeUnits (str ''5*10^4 kg*m^-1*s^-2'') = Returns (str ''5*10^7 g*m^-1*s^-2'')
   \<and> normalizeUnits (str ''50 kPa'') = Returns (str ''50*10^6 g*m^-1*s^-2'')"
proof -
  have "parseBase (str ''kg'' @ 42 # t) = Success (str ''kg'') (42 # t)
         \<lparr>exponents = [str ''10'' \<mapsto> Exact 3, str ''g'' \<mapsto> Exact 1], conversion = (\<lambda>m. m)\<rparr>"
    using matchList_kg [of t] prefix_k derived_base by (simp add: evdefs str_def)
  then show ?thesis
    using parseExpression_5e4 parseExpression_50kPa normalizeUnits_5e4 normalizeUnits_50kPa
    by (simp add: fun_eq_iff str_def)
qed

text \<open>
  The claim as stated fails: the magnitudes are 5 and 50, the entries of 10 are 7
  and 6, and the two outputs are different strings.
\<close>

theorem cross_representation_counterexample:
  "parseExpression (str ''5*10^4kg*m^-1*s^-2'') = Returns (Success (str ''5*10^4kg*m^-1*s^-2'') []
       \<lparr>magnitude = Exact 5,
        expExponents = [str ''10'' \<mapsto> Exact 7, str ''g'' \<mapsto> Exact 1,
                        str ''m'' \<mapsto> Exact (- 1), str ''s'' \<mapsto> Exact (- 2)]\<rparr>)
   \<and> parseExpression (str ''50kPa'') = Returns (Success (str ''50kPa'') []
       \<lparr>magnitude = Exact 50,
        expExponents = [str ''10'' \<mapsto> Exact 6, str ''g'' \<mapsto> Exact 1,
                        str ''m'' \<mapsto> Exact (- 1), str ''s'' \<mapsto> Exact (- 2)]\<rparr>)
   \<and> Exact 5 \<noteq> Exact 50
   \<and> Exact 7 \<noteq> Exact 6
   \<and> normalizeUnits (str ''5*10^4 kg*m^-1*s^-2'') = Returns (str ''5*10^7 g*m^-1*s^-2'')
   \<and> normalizeUnits (str ''50 kPa'') = Returns (str ''50*10^6 g*m^-1*s^-2'')
   \<and> normalizeUnits (str ''5*10^4 kg*m^-1*s^-2'') \<noteq> normalizeUnits (str ''50 kPa'')"
  using parseExpression_5e4 parseExpression_50kPa normalizeUnits_5e4 normalizeUnits_50kPa
  by (simp add: str_def)


text \<open>
  C8. For every input on which the magnitude parser fails while consuming nothing
  but a unit term still parses (\<^verbatim>\<open>kPa\<close>), \<^verbatim>\<open>_parseExpression\<close> succeeds with the
  magnitude \<open>NaN\<close> and with the exponent vector of the term, unchanged: nothing is
  added to the entry of 10.
\<close>

theorem bare_unit_expression:
  assumes "parseMagnitude s = Failure [] r"
    and "parseTerm s = Success tc tr tres"
  shows "parseExpression s
    = Returns (Success tc tr \<lparr>magnitude = NaN, expExponents = exponents tres\<rparr>)"
  using assms by (rule parseExpression_bare_unit)

theorem bare_unit_expression_witness:
  "parseMagnitude (str ''kPa'') = Failure [] (str ''kPa'')
   \<and> parseTerm (str ''kPa'') = Success (str ''kPa'') []
       \<lparr>exponents = [str ''10'' \<mapsto> Exact 6, str ''g'' \<mapsto> Exact 1, str ''m'' \<mapsto> Exact (- 1),
                      str ''s'' \<mapsto> Exact (- 2)],
        conversion = (\<lambda>m. m)\<rparr>
   \<and> parseExpression (str ''kPa'') = Returns (Success (str ''kPa'') []
       \<lparr>magnitude = NaN,
        expExponents = [str ''10'' \<mapsto> Exact 6, str ''g'' \<mapsto> Exact 1, str ''m'' \<mapsto> Exact (- 1),
                      str ''s'' \<mapsto> Exact (- 2)]\<rparr>)"
  using bare_unit_expression [OF parseMagnitude_kPa parseTerm_kPa] parseMagnitude_kPa
    parseTerm_kPa
  by simp

text \<open>
  C10. When the input is a bare unit term with no leading significand (\<^verbatim>\<open>kPa\<close>),
  \<^verbatim>\<open>_normalizeUnits\<close> reports success, its magnitude string starts with the text
  \<^verbatim>\<open>null\<close>, the JSON serialisation of \<open>NaN\<close> (\<^verbatim>\<open>null*10^6\<close> for \<^verbatim>\<open>kPa\<close>), and the
  public wrapper returns an output that starts with that magnitude string. The
  third hypothesis keeps the exponents of the term within the numbers the model
  determines.
\<close>

theorem bare_unit_normalizes_to_null:
  assumes m: "parseMagnitude (stripSpaces s) = Failure [] r"
    and t: "parseTerm (stripSpaces s) = Success tc tr tres"
    and d: "list_all (\<lambda>k. exponents tres k \<noteq> Some Inexact) canonicalKeys"
  shows "\<exists>res out. normalizeUnits_inner s = Returns (Success tc tr res)
           \<and> prefix (str ''null'') (magnitudeString res)
           \<and> normalizeUnits s = Returns out
           \<and> prefix (magnitudeString res) out"
proof -
  let ?e = "exponents tres"
  have e: "parseExpression (stripSpaces s)
      = Returns (Success tc tr \<lparr>magnitude = NaN, expExponents = ?e\<rparr>)"
    using m t by (rule parseExpression_bare_unit)
  from t have ne: "stripSpaces s \<noteq> []" by (auto dest: parseTerm_Success_head)
  from d have "?e (str ''10'') \<noteq> Some Inexact" by (simp add: canonicalKeys_def)
  then obtain x where x: "renderMagnitude NaN ?e = Some (str ''null'' @ x)"
    by (auto dest: renderMagnitude_NaN)
  from d have "list_all (\<lambda>k. ?e k \<noteq> Some Inexact)
      (filter (\<lambda>unit. unit \<noteq> str ''10'') (filter (\<lambda>unit. ?e unit \<noteq> None) canonicalKeys))"
    by (intro list_all_filter)
  then obtain rs where rs: "those (map (renderUnit ?e)
      (filter (\<lambda>unit. unit \<noteq> str ''10'') (filter (\<lambda>unit. ?e unit \<noteq> None) canonicalKeys)))
      = Some rs"
    by (auto dest: those_renderUnit_Some)
  have n: "normalizeUnits_inner s = Returns (Success tc tr
      \<lparr>magnitudeString = str ''null'' @ x, unitsString = join (str ''*'') rs\<rparr>)"
    using e ne x rs by (simp add: normalizeUnits_inner_def Let_def)
  then show ?thesis by (simp add: normalizeUnits_def throttle_def)
qed

theorem bare_unit_normalizes_to_null_witness:
  "normalizeUnits_inner (str ''kPa'') = Returns (Success (str ''kPa'') []
       \<lparr>magnitudeString = str ''null*10^6'', unitsString = str ''g*m^-1*s^-2''\<rparr>)
   \<and> prefix (str ''null'') (str ''null*10^6'')
   \<and> normalizeUnits (str ''kPa'') = Returns (str ''null*10^6 g*m^-1*s^-2'')
   \<and> prefix (str ''null*10^6'') (str ''null*10^6 g*m^-1*s^-2'')"
proof -
  have m: "parseMagnitude (stripSpaces (str ''kPa'')) = Failure [] (str ''kPa'')"
    using parseMagnitude_kPa by (simp add: stripSpaces_kPa)
  have t: "parseTerm (stripSpaces (str ''kPa'')) = Success (str ''kPa'') []
     \<lparr>exponents = [str ''10'' \<mapsto> Exact 6, str ''g'' \<mapsto> Exact 1, str ''m'' \<mapsto> Exact (- 1),
                    str ''s'' \<mapsto> Exact (- 2)],
      conversion = (\<lambda>m. m)\<rparr>"
    using parseTerm_kPa by (simp add: stripSpaces_kPa)
  have d: "list_all (\<lambda>k. exponents
     \<lparr>exponents = [str ''10'' \<mapsto> Exact 6, str ''g'' \<mapsto> Exact 1, str ''m'' \<mapsto> Exact (- 1),
                    str ''s'' \<mapsto> Exact (- 2)],
      conversion = (\<lambda>m. m)\<rparr> k \<noteq> Some Inexact) canonicalKeys"
    by (simp add: canonicalKeys_def str_def)
  from bare_unit_normalizes_to_null [OF m t d] obtain res out where
    "normalizeUnits_inner (str ''kPa'') = Returns (Success (str ''kPa'') [] res)"
    "prefix (str ''null'') (magnitudeString res)"
    "normalizeUnits (str ''kPa'') = Returns out"
    "prefix (magnitudeString res) out"
    by blast
  with normalizeUnits_inner_kPa normalizeUnits_kPa show ?thesis by simp
qed

text \<open>
  C4. \<^verbatim>\<open>normalizeUnits("50 qPa")\<close> throws; the message of every error that
  \<^verbatim>\<open>normalizeUnits\<close> throws holds the consumed prefix and the input; and the claim
  goes on: the internal grammar rules never throw on a string. They are written to
  return \<^verbatim>\<open>failureResult\<close>, and all but one do. \<^verbatim>\<open>_parseExpression\<close> accepts a failed
  magnitude that consumed nothing, and when the rest is empty too it reads
  \<^verbatim>\<open>magnitudeResult.result.significand\<close> of that failure: on the empty string it
  throws a \<^verbatim>\<open>TypeError\<close>.
\<close>

theorem parseExpression_empty_throws:
  "parseMagnitude [] = Failure [] [] \<and> parseExpression [] = Throws TypeError"
  by (simp add: lexdefs ev)

text \<open>
  The rest of C4 holds: the wrapper throws on \<^verbatim>\<open>50 qPa\<close> with the consumed prefix
  \<^verbatim>\<open>50\<close>; whenever it throws, \<^verbatim>\<open>_normalizeUnits\<close> returned a failure and the message
  is built from its \<^verbatim>\<open>consumed\<close> and the input as given; the expression rule throws
  on no other string, and \<^verbatim>\<open>_normalizeUnits\<close> never passes it the empty one.
\<close>

lemma normalizeUnits_throws_message:
  "normalizeUnits (str ''50 qPa'') = Throws (Error (errorMessage (str ''50'') (str ''50 qPa'')))
   \<and> errorMessage (str ''50'') (str ''50 qPa'')
       = str ''Unable to parse after '' @ [39] @ str ''50'' @ [39] @ str '' in '' @ [39]
           @ str ''50 qPa'' @ [39] @ str ''. Are you sure metric units are being used?''
   \<and> (normalizeUnits s = Throws e \<longrightarrow>
         (\<exists>c. normalizeUnits_inner s = Returns (Failure c s) \<and> prefix c (stripSpaces s)
            \<and> e = Error (errorMessage c s)))
   \<and> (parseExpression s = Throws e \<longrightarrow> s = [])
   \<and> normalizeUnits_inner s \<noteq> Throws e"
proof -
  have "prefix c (stripSpaces s)" if "normalizeUnits_inner s = Returns (Failure c s)" for c
  proof -
    from that have "parseExpression (stripSpaces s) = Returns (Failure c (stripSpaces s))"
      by (auto simp: normalizeUnits_inner_def Let_def dest: wellFormed_parseExpression
          split: if_splits completion.splits outcome.splits option.splits)
    then show ?thesis by (auto dest: wellFormed_parseExpression)
  qed
  then show ?thesis
    using normalizeUnits_50qPa normalizeUnits_Throws [of s e] parseExpression_Throws [of s e]
      normalizeUnits_inner_not_Throws [of s e]
    by (auto simp: errorMessage_def)
qed


text \<open>
  C5. For every input, \<^verbatim>\<open>_parseBase\<close> selects, among all pairs of a prefix and a unit
  whose concatenation is a literal prefix of the input, one with the greatest total
  length; the per-unit tokens and the degree Celsius are never combined with a non-empty prefix;
  on an input that begins with \<^verbatim>\<open>mol\<close> it consumes the base unit \<^verbatim>\<open>mol\<close>; and when no
  pair matches it fails with nothing consumed.
\<close>

theorem parseBase_longest_match:
  "(candidatePairs s = {} \<longrightarrow> parseBase s = Failure [] s)
   \<and> (candidatePairs s \<noteq> {} \<longrightarrow>
        (\<exists>p u. (p, u) \<in> candidatePairs s
           \<and> success (parseBase s) \<and> consumed (parseBase s) = p @ u
           \<and> rest (parseBase s) = drop (length (p @ u)) s
           \<and> (\<forall>(p', u') \<in> candidatePairs s. length p' + length u' \<le> length p + length u)))
   \<and> (\<forall>(p, u) \<in> set (matchList s). u \<in> set perUnits \<or> u = degreeC \<longrightarrow> p = [])
   \<and> consumed (parseBase (str ''mol'' @ t)) = str ''mol''
   \<and> rest (parseBase (str ''mol'' @ t)) = t"
proof (intro conjI impI)
  assume "candidatePairs s = {}"
  then have "matchList s = []" using set_matchList [of s] by simp
  then show "parseBase s = Failure [] s" by (simp add: parseBase_def)
next
  assume "candidatePairs s \<noteq> {}"
  then have "matchList s \<noteq> []" using set_matchList [of s] by auto
  then obtain p u ms where m: "matchList s = (p, u) # ms"
    by (cases "matchList s") auto
  then have "(p, u) \<in> candidatePairs s" using set_matchList [of s] by auto
  moreover from m have "success (parseBase s)" "consumed (parseBase s) = p @ u"
    "rest (parseBase s) = drop (length (p @ u)) s"
    by (simp_all add: parseBase_def Let_def)
  moreover have "\<forall>(p', u') \<in> candidatePairs s. length p' + length u' \<le> length p + length u"
    using matchList_head_longest [OF m] by auto
  ultimately show "\<exists>p u. (p, u) \<in> candidatePairs s
           \<and> success (parseBase s) \<and> consumed (parseBase s) = p @ u
           \<and> rest (parseBase s) = drop (length (p @ u)) s
           \<and> (\<forall>(p', u') \<in> candidatePairs s. length p' + length u' \<le> length p + length u)"
    by blast
next
  show "\<forall>(p, u) \<in> set (matchList s). u \<in> set perUnits \<or> u = degreeC \<longrightarrow> p = []"
    by (auto dest: matchList_prefixless simp: prefixlessUnits_def)
next
  show "consumed (parseBase (str ''mol'' @ t)) = str ''mol''"
    using matchList_mol [of t] by (simp add: parseBase_def Let_def)
next
  show "rest (parseBase (str ''mol'' @ t)) = t"
    using matchList_mol [of t] by (simp add: parseBase_def Let_def str_def)
qed

text \<open>
  \<^verbatim>\<open>kPa\<close> has the one candidate \<^verbatim>\<open>k\<close> with \<^verbatim>\<open>Pa\<close>, \<^verbatim>\<open>qPa\<close> has none, \<^verbatim>\<open>ppm\<close> is
  matched without the prefix \<^verbatim>\<open>p\<close>, and \<^verbatim>\<open>m%\<close> is the metre, not a milli-percent.
\<close>

theorem parseBase_longest_match_witness:
  "(str ''k'', str ''Pa'') \<in> candidatePairs (str ''kPa'')
   \<and> parseBase (str ''kPa'') = Success (str ''kPa'') []
       \<lparr>exponents = [str ''10'' \<mapsto> Exact 6, str ''g'' \<mapsto> Exact 1, str ''m'' \<mapsto> Exact (- 1),
                      str ''s'' \<mapsto> Exact (- 2)],
        conversion = (\<lambda>m. m)\<rparr>
   \<and> candidatePairs (str ''qPa'') = {}
   \<and> parseBase (str ''qPa'') = Failure [] (str ''qPa'')
   \<and> matchList (str ''m%'') = [([], str ''m'')]
   \<and> matchList (str ''ppm'') = [([], str ''ppm'')]
   \<and> consumed (parseBase (str ''mol'')) = str ''mol''"
proof -
  have k: "candidatePairs (str ''kPa'') = {(str ''k'', str ''Pa'')}"
    using set_matchList [of "str ''kPa''"] matchList_kPa by simp
  have q: "candidatePairs (str ''qPa'') = {}"
    using set_matchList [of "str ''qPa''"] matchList_qPa by simp
  have p: "matchList (str ''m%'') = [([], str ''m'')]"
    by (simp add: tables)
  have pp: "matchList (str ''ppm'') = [([], str ''ppm'')]"
    by (simp add: tables)
  from parseBase_longest_match [of "str ''kPa''" "[]"] parseBase_longest_match [of "str ''qPa''" "[]"]
    parseBase_longest_match [of "str ''ppm''" "[]"] k q p pp parseBase_kPa
  show ?thesis by simp
qed









end
